theory Spec2Isabelle
  imports Complex_Main "HOL-Library.AList" "HOL-Library.Multiset"
begin

section \<open>Python values used by the simulator\<close>

text \<open>
  A Python \<open>float\<close>: a finite value, the two infinities, or NaN. Only comparisons are
  modelled (every comparison with NaN is false); the rounding of a value to the nearest
  double is left out, a finite float is identified with the real number it denotes.
\<close>

datatype pyfloat = Finite real | PosInf | NegInf | NaN

fun pf_less :: "pyfloat \<Rightarrow> pyfloat \<Rightarrow> bool" where
  "pf_less NaN _ = False"
| "pf_less _ NaN = False"
| "pf_less (Finite a) (Finite b) = (a < b)"
| "pf_less (Finite a) PosInf = True"
| "pf_less (Finite a) NegInf = False"
| "pf_less PosInf _ = False"
| "pf_less NegInf (Finite b) = True"
| "pf_less NegInf PosInf = True"
| "pf_less NegInf NegInf = False"

definition pf_greater :: "pyfloat \<Rightarrow> pyfloat \<Rightarrow> bool" where
  "pf_greater a b = pf_less b a"

text \<open>The values a parsed JSON body (or a job parameter) can hold.\<close>

datatype pyval =
    PyNone
  | PyBool bool
  | PyInt int
  | PyFloat pyfloat
  | PyStr string
  | PyList "pyval list"
  | PyDict "(string \<times> pyval) list"

text \<open>
  \<open>random.choice(seq)\<close> is \<open>seq[randbelow(len(seq))]\<close>; the draw is an argument of the
  model. Every call site of the source passes a non-empty sequence.
  \<open>random.randint(a, b)\<close> returns a value of \<open>a..b\<close>, both ends included.
\<close>

definition choice :: "'a list \<Rightarrow> nat \<Rightarrow> 'a" where
  "choice seq r = seq ! (r mod length seq)"

definition randint :: "nat \<Rightarrow> nat \<Rightarrow> nat \<Rightarrow> nat" where
  "randint a b r = a + r mod (b - a + 1)"

type_synonym datetime = nat

section \<open>job\_types.py\<close>

datatype JobStatus = PENDING | RUNNING | COMPLETED | FAILED | CANCELLED

datatype JobPriority = LOW | NORMAL | HIGH | CRITICAL

fun priority_value :: "JobPriority \<Rightarrow> int" where
  "priority_value LOW = 1"
| "priority_value NORMAL = 2"
| "priority_value HIGH = 3"
| "priority_value CRITICAL = 4"

fun priority_name :: "JobPriority \<Rightarrow> string" where
  "priority_name LOW = ''LOW''"
| "priority_name NORMAL = ''NORMAL''"
| "priority_name HIGH = ''HIGH''"
| "priority_name CRITICAL = ''CRITICAL''"

record Job =
  job_id :: string
  job_type :: string
  priority :: JobPriority
  status :: JobStatus
  created_at :: datetime
  started_at :: "datetime option"
  completed_at :: "datetime option"
  worker_id :: "string option"
  parameters :: "(string \<times> pyval) list"
  result :: "string option"
  error_message :: "string option"
  retry_count :: int
  max_retries :: int

subsection \<open>Executors and their registry\<close>

datatype JobExecutor =
    SleepJobExecutor
  | ComputeJobExecutor
  | MatrixJobExecutor
  | FaultInjectionJobExecutor

fun can_execute :: "JobExecutor \<Rightarrow> Job \<Rightarrow> bool" where
  "can_execute SleepJobExecutor job = (job_type job = ''sleep'')"
| "can_execute ComputeJobExecutor job = (job_type job = ''compute'')"
| "can_execute MatrixJobExecutor job = (job_type job = ''matrix'')"
| "can_execute FaultInjectionJobExecutor job = (job_type job = ''fault_injection'')"

text \<open>
  What \<open>execute_job\<close> can raise: the registry's own \<open>ValueError\<close> for a job no executor
  claims, or whatever the body of an executor raised (with its message).
\<close>

datatype exec_error = NoExecutor string | ExecutorRaised string

fun str_exc :: "exec_error \<Rightarrow> string" where
  "str_exc (NoExecutor t) = ''No executor found for job type: '' @ t"
| "str_exc (ExecutorRaised m) = m"

type_synonym registry = "JobExecutor list"

definition register :: "JobExecutor \<Rightarrow> registry \<Rightarrow> registry" where
  "register executor executors = executors @ [executor]"

definition register_default_executors :: "registry \<Rightarrow> registry" where
  "register_default_executors executors =
     register FaultInjectionJobExecutor
       (register MatrixJobExecutor
         (register ComputeJobExecutor
           (register SleepJobExecutor executors)))"

definition job_executor_registry :: registry where
  "job_executor_registry = register_default_executors []"

text \<open>The \<open>for\<close> loop of \<open>get_executor\<close>: the first executor that claims the job.\<close>

fun get_executor :: "registry \<Rightarrow> Job \<Rightarrow> JobExecutor option" where
  "get_executor [] job = None"
| "get_executor (executor # executors) job =
     (if can_execute executor job then Some executor else get_executor executors job)"

text \<open>
  The bodies of the executors sleep, draw random numbers and multiply matrices; the model
  takes their outcome as an argument \<open>body\<close>: \<open>Inl m\<close> when the body raised an exception
  with message \<open>m\<close>, \<open>Inr v\<close> when it returned \<open>v\<close>.
\<close>

definition execute_job ::
  "(JobExecutor \<Rightarrow> Job \<Rightarrow> string + string) \<Rightarrow> registry \<Rightarrow> Job \<Rightarrow> exec_error + string" where
  "execute_job body executors job =
     (case get_executor executors job of
        None \<Rightarrow> Inl (NoExecutor (job_type job))
      | Some executor \<Rightarrow>
          (case body executor job of
             Inl m \<Rightarrow> Inl (ExecutorRaised m)
           | Inr v \<Rightarrow> Inr v))"

text \<open>\<open>dict.get(key, default)\<close> on a dictionary kept as an association list.\<close>

definition dict_get :: "('k \<times> 'v) list \<Rightarrow> 'k \<Rightarrow> 'v \<Rightarrow> 'v" where
  "dict_get d k dflt = (case map_of d k of None \<Rightarrow> dflt | Some v \<Rightarrow> v)"

section \<open>utils.py\<close>

text \<open>\<open>str(n)\<close> of a non-negative integer, as an f-string renders it.\<close>

fun str_nat :: "nat \<Rightarrow> string" where
  "str_nat n =
     (if n < 10 then [''0123456789'' ! n]
      else str_nat (n div 10) @ [''0123456789'' ! (n mod 10)])"

declare str_nat.simps [simp del]

text \<open>\<open>str.lower()\<close> on ASCII text.\<close>

definition lower :: "string \<Rightarrow> string" where
  "lower s =
     map (\<lambda>c. case map_of (zip ''ABCDEFGHIJKLMNOPQRSTUVWXYZ'' ''abcdefghijklmnopqrstuvwxyz'') c of
                 None \<Rightarrow> c | Some l \<Rightarrow> l) s"

definition type_prefixes :: "(string \<times> string list) list" where
  "type_prefixes =
     [(''sleep'', [''io'', ''wait'', ''idle'', ''pause'', ''delay'']),
      (''compute'', [''calc'', ''process'', ''analyze'', ''compute'', ''run'']),
      (''matrix'', [''matrix'', ''gpu'', ''tensor'', ''linear'', ''algebra'']),
      (''fault_injection'', [''test'', ''check'', ''verify'', ''validate'', ''inject''])]"

definition priority_suffixes :: "(string \<times> string list) list" where
  "priority_suffixes =
     [(''low'', [''batch'', ''background'', ''low-priority'']),
      (''normal'', [''standard'', ''regular'', ''normal'']),
      (''high'', [''urgent'', ''priority'', ''important'']),
      (''critical'', [''critical'', ''emergency'', ''immediate''])]"

text \<open>
  \<open>generate_job_id\<close>: the three random draws (prefix, suffix, number) are the arguments
  \<open>r1\<close>, \<open>r2\<close>, \<open>r3\<close>.
\<close>

definition generate_job_id :: "string \<Rightarrow> string \<Rightarrow> nat \<Rightarrow> nat \<Rightarrow> nat \<Rightarrow> string" where
  "generate_job_id jtype prio r1 r2 r3 =
     (let prefix = choice (dict_get type_prefixes jtype [''job'']) r1;
          suffix = choice (dict_get priority_suffixes (lower prio) [''normal'']) r2;
          number = randint 1000 9999 r3
      in if jtype = ''matrix'' then ''gpu-'' @ prefix @ ''-'' @ str_nat number
         else if jtype = ''fault_injection'' then prefix @ ''-test-'' @ str_nat number
         else prefix @ ''-'' @ suffix @ ''-'' @ str_nat number)"

text \<open>\<open>create_job\<close> of job\_types.py; \<open>now\<close> is \<open>datetime.now()\<close>.\<close>

definition create_job ::
  "string \<Rightarrow> JobPriority \<Rightarrow> (string \<times> pyval) list \<Rightarrow> datetime \<Rightarrow> nat \<Rightarrow> nat \<Rightarrow> nat \<Rightarrow> Job" where
  "create_job jtype prio params now r1 r2 r3 =
     \<lparr> job_id = generate_job_id jtype (lower (priority_name prio)) r1 r2 r3,
       job_type = jtype,
       priority = prio,
       status = PENDING,
       created_at = now,
       started_at = None,
       completed_at = None,
       worker_id = None,
       parameters = params,
       result = None,
       error_message = None,
       retry_count = 0,
       max_retries = 3 \<rparr>"

section \<open>autonomous\_simulator.py\<close>

text \<open>
  Job objects are shared: the \<open>jobs\<close> dictionary, the queue and a worker's \<open>current_job\<close>
  all refer to the same object, and the simulator mutates it in place. The model keeps the
  objects in a store (\<open>heap\<close>, a list indexed by the reference, extended at each
  allocation) and the references everywhere else.
\<close>

type_synonym job_ref = nat

text \<open>The fields \<open>worker_id\<close>, \<open>status\<close> and \<open>recovery_time\<close> of \<open>WorkerInfo\<close> carry the
  prefix \<open>w_\<close>: the names are taken by the job and the simulator.\<close>

record WorkerInfo =
  w_worker_id :: string
  w_status :: string
  current_job :: "job_ref option"
  last_heartbeat :: datetime
  failure_probability :: pyfloat
  w_recovery_time :: int

definition is_available :: "WorkerInfo \<Rightarrow> bool" where
  "is_available w = (w_status w = ''online'' \<and> current_job w = None)"

record Stats =
  total_jobs :: int
  completed_jobs :: int
  failed_jobs :: int
  worker_failures :: int
  worker_recoveries :: int
  active_workers :: int
  simulation_start :: datetime

text \<open>Dictionaries keep their insertion order: association lists, updated in place.\<close>

record Simulator =
  workers :: "(string \<times> WorkerInfo) list"
  jobs :: "(string \<times> job_ref) list"
  job_queue :: "job_ref list"
  running :: bool
  job_generation_rate :: pyfloat
  failure_rate :: pyfloat
  recovery_time :: int
  stats :: Stats
  heap :: "Job list"

definition init_simulator :: "datetime \<Rightarrow> Simulator" where
  "init_simulator now =
     \<lparr> workers = [], jobs = [], job_queue = [], running = False,
       job_generation_rate = Finite 2, failure_rate = Finite (1 / 10), recovery_time = 30,
       stats = \<lparr> total_jobs = 0, completed_jobs = 0, failed_jobs = 0, worker_failures = 0,
                 worker_recoveries = 0, active_workers = 0, simulation_start = now \<rparr>,
       heap = [] \<rparr>"

definition set_job_generation_rate :: "pyfloat \<Rightarrow> Simulator \<Rightarrow> Simulator" where
  "set_job_generation_rate rate s = s\<lparr>job_generation_rate := rate\<rparr>"

definition add_worker :: "string \<Rightarrow> pyfloat \<Rightarrow> datetime \<Rightarrow> Simulator \<Rightarrow> Simulator" where
  "add_worker wid fp now s =
     s\<lparr> workers :=
          AList.update wid
            \<lparr> w_worker_id = wid, w_status = ''online'', current_job = None,
              last_heartbeat = now, failure_probability = fp,
              w_recovery_time = recovery_time s \<rparr>
            (workers s),
        stats := (stats s)\<lparr>active_workers := active_workers (stats s) + 1\<rparr> \<rparr>"

text \<open>
  One emission of \<open>_job_generator\<close> (the body under \<open>if random.random() < rate / 60\<close>):
  the job type, the parameters and the priority drawn are arguments, as are the draws of
  \<open>generate_job_id\<close>. The new object is allocated at the end of the store.
\<close>

definition job_generator_emit ::
  "string \<Rightarrow> JobPriority \<Rightarrow> (string \<times> pyval) list \<Rightarrow> datetime \<Rightarrow> nat \<Rightarrow> nat \<Rightarrow> nat \<Rightarrow>
   Simulator \<Rightarrow> Simulator" where
  "job_generator_emit jtype prio params now r1 r2 r3 s =
     (let job = create_job jtype prio params now r1 r2 r3;
          ref = length (heap s)
      in s\<lparr> heap := heap s @ [job],
            jobs := AList.update (job_id job) ref (jobs s),
            job_queue := job_queue s @ [ref],
            stats := (stats s)\<lparr>total_jobs := total_jobs (stats s) + 1\<rparr> \<rparr>)"

datatype py_exc =
    KeyError string
  | AttributeError
  | TypeError
  | ValueError
  | OverflowError
  | BadRequest

text \<open>
  \<open>_simulate_worker_failure\<close>. \<open>self.workers[worker_id]\<close> raises \<open>KeyError\<close> for an unknown
  id. A \<open>Job\<close> object is always true in \<open>if worker.current_job\<close>. The recovery thread the
  function starts at its end is a later call of \<open>recover_worker\<close>.
\<close>

definition simulate_worker_failure :: "string \<Rightarrow> Simulator \<Rightarrow> py_exc + Simulator" where
  "simulate_worker_failure wid s =
     (case map_of (workers s) wid of
        None \<Rightarrow> Inl (KeyError wid)
      | Some worker \<Rightarrow>
          (let worker1 = worker\<lparr>w_status := ''failed''\<rparr>;
               stats1 = (stats s)\<lparr> worker_failures := worker_failures (stats s) + 1,
                                   active_workers := active_workers (stats s) - 1 \<rparr>
           in case current_job worker of
                None \<Rightarrow> Inr (s\<lparr>workers := AList.update wid worker1 (workers s), stats := stats1\<rparr>)
              | Some j \<Rightarrow>
                  (let job = heap s ! j;
                       job1 = job\<lparr> status := PENDING, worker_id := None, started_at := None,
                                   retry_count := retry_count job + 1 \<rparr>
                   in if retry_count job1 \<le> max_retries job1
                      then Inr (s\<lparr> workers :=
                                       AList.update wid (worker1\<lparr>current_job := None\<rparr>) (workers s),
                                     stats := stats1,
                                     job_queue := job_queue s @ [j],
                                     heap := (heap s)[j := job1] \<rparr>)
                      else Inr (s\<lparr> workers :=
                                       AList.update wid (worker1\<lparr>current_job := None\<rparr>) (workers s),
                                     stats := stats1\<lparr>failed_jobs := failed_jobs stats1 + 1\<rparr>,
                                     heap := (heap s)
                                       [j := job1\<lparr> status := FAILED,
                                                   error_message :=
                                                     Some ''Max retries exceeded due to worker failures'' \<rparr>] \<rparr>))))"

text \<open>\<open>_recover_worker\<close>, after its sleep; \<open>now\<close> is \<open>datetime.now()\<close>.\<close>

definition recover_worker :: "string \<Rightarrow> datetime \<Rightarrow> Simulator \<Rightarrow> Simulator" where
  "recover_worker wid now s =
     (case map_of (workers s) wid of
        None \<Rightarrow> s
      | Some worker \<Rightarrow>
          s\<lparr> workers :=
               AList.update wid (worker\<lparr>w_status := ''online'', last_heartbeat := now\<rparr>) (workers s),
             stats := (stats s)\<lparr> worker_recoveries := worker_recoveries (stats s) + 1,
                                 active_workers := active_workers (stats s) + 1 \<rparr> \<rparr>)"

text \<open>
  \<open>list.sort(key=..., reverse=True)\<close>: CPython reverses the list, sorts it stably in
  ascending order and reverses the result, which keeps equal keys in their given order.
\<close>

definition py_sort_reverse :: "('a \<Rightarrow> int) \<Rightarrow> 'a list \<Rightarrow> 'a list" where
  "py_sort_reverse key xs = rev (sort_key key (rev xs))"

text \<open>
  One tick of \<open>_job_scheduler\<close> (the body under the lock). \<open>now\<close> is \<open>datetime.now()\<close>,
  \<open>r\<close> the draw of \<open>random.choice\<close>. The available workers are listed with their keys in
  the dictionary, which stand for the objects.
\<close>

definition available_workers :: "Simulator \<Rightarrow> (string \<times> WorkerInfo) list" where
  "available_workers s = filter (\<lambda>(k, w). is_available w) (workers s)"

definition job_scheduler_tick :: "datetime \<Rightarrow> nat \<Rightarrow> Simulator \<Rightarrow> Simulator" where
  "job_scheduler_tick now r s =
     (if job_queue s = [] then s
      else
        (let queue = py_sort_reverse (\<lambda>j. priority_value (priority (heap s ! j))) (job_queue s);
             s1 = s\<lparr>job_queue := queue\<rparr>;
             available = available_workers s1
         in if available = [] then s1
            else
              (case queue of
                 [] \<Rightarrow> s1
               | job # rest \<Rightarrow>
                   (let (k, worker) = choice available r
                    in s1\<lparr> job_queue := rest,
                           workers :=
                             AList.update k (worker\<lparr>current_job := Some job, w_status := ''busy''\<rparr>)
                               (workers s1),
                           heap := (heap s1)
                             [job := (heap s1 ! job)\<lparr> status := RUNNING, started_at := Some now,
                                                       worker_id := Some (w_worker_id worker) \<rparr>] \<rparr>))))"

text \<open>
  \<open>_job_executor\<close>: the body of the loop for one worker holding a running job, then the
  loop over \<open>self.workers.values()\<close>. The outcome of the executor's body and the time of
  completion are given per worker key.
\<close>

definition run_job ::
  "(JobExecutor \<Rightarrow> Job \<Rightarrow> string + string) \<Rightarrow> datetime \<Rightarrow> string \<Rightarrow> WorkerInfo \<Rightarrow> job_ref \<Rightarrow>
   Simulator \<Rightarrow> Simulator" where
  "run_job body now k worker j s =
     (let job = heap s ! j;
          s1 = (case execute_job body job_executor_registry job of
                  Inr v \<Rightarrow>
                    s\<lparr> heap := (heap s)
                          [j := job\<lparr>status := COMPLETED, completed_at := Some now, result := Some v\<rparr>],
                       stats := (stats s)\<lparr>completed_jobs := completed_jobs (stats s) + 1\<rparr> \<rparr>
                | Inl e \<Rightarrow>
                    s\<lparr> heap := (heap s)
                          [j := job\<lparr>status := FAILED, completed_at := Some now,
                                    error_message := Some (str_exc e)\<rparr>],
                       stats := (stats s)\<lparr>failed_jobs := failed_jobs (stats s) + 1\<rparr> \<rparr>)
      in s1\<lparr>workers :=
              AList.update k (worker\<lparr>current_job := None, w_status := ''online''\<rparr>) (workers s1)\<rparr>)"

fun job_executor_loop ::
  "(string \<Rightarrow> JobExecutor \<Rightarrow> Job \<Rightarrow> string + string) \<Rightarrow> (string \<Rightarrow> datetime) \<Rightarrow> string list \<Rightarrow>
   Simulator \<Rightarrow> Simulator" where
  "job_executor_loop body now [] s = s"
| "job_executor_loop body now (k # ks) s =
     (case map_of (workers s) k of
        None \<Rightarrow> job_executor_loop body now ks s
      | Some worker \<Rightarrow>
          (case current_job worker of
             None \<Rightarrow> job_executor_loop body now ks s
           | Some j \<Rightarrow>
               if status (heap s ! j) = RUNNING
               then job_executor_loop body now ks (run_job (body k) (now k) k worker j s)
               else job_executor_loop body now ks s))"

definition job_executor_tick ::
  "(string \<Rightarrow> JobExecutor \<Rightarrow> Job \<Rightarrow> string + string) \<Rightarrow> (string \<Rightarrow> datetime) \<Rightarrow>
   Simulator \<Rightarrow> Simulator" where
  "job_executor_tick body now s = job_executor_loop body now (map fst (workers s)) s"

text \<open>
  \<open>_fault_injector\<close> and \<open>_worker_monitor\<close>: \<open>fails k\<close> says whether the random draw for
  worker \<open>k\<close> fell below the threshold. An exception ends the loop (the tick's handler
  logs it).
\<close>

fun fault_injector_loop :: "(string \<Rightarrow> bool) \<Rightarrow> string list \<Rightarrow> Simulator \<Rightarrow> Simulator" where
  "fault_injector_loop fails [] s = s"
| "fault_injector_loop fails (k # ks) s =
     (case map_of (workers s) k of
        None \<Rightarrow> fault_injector_loop fails ks s
      | Some worker \<Rightarrow>
          if w_status worker = ''online'' \<and> fails k
          then (case simulate_worker_failure k s of
                  Inl e \<Rightarrow> s
                | Inr s1 \<Rightarrow> fault_injector_loop fails ks s1)
          else fault_injector_loop fails ks s)"

definition fault_injector_tick :: "(string \<Rightarrow> bool) \<Rightarrow> Simulator \<Rightarrow> Simulator" where
  "fault_injector_tick fails s = fault_injector_loop fails (map fst (workers s)) s"

fun worker_monitor_loop ::
  "(string \<Rightarrow> bool) \<Rightarrow> datetime \<Rightarrow> string list \<Rightarrow> Simulator \<Rightarrow> Simulator" where
  "worker_monitor_loop fails current_time [] s = s"
| "worker_monitor_loop fails current_time (k # ks) s =
     (case map_of (workers s) k of
        None \<Rightarrow> worker_monitor_loop fails current_time ks s
      | Some worker \<Rightarrow>
          if w_status worker = ''online''
          then (if fails k
                then (case simulate_worker_failure k s of
                        Inl e \<Rightarrow> s
                      | Inr s1 \<Rightarrow> worker_monitor_loop fails current_time ks s1)
                else worker_monitor_loop fails current_time ks
                       (s\<lparr>workers :=
                            AList.update k (worker\<lparr>last_heartbeat := current_time\<rparr>) (workers s)\<rparr>))
          else worker_monitor_loop fails current_time ks s)"

definition worker_monitor_tick :: "(string \<Rightarrow> bool) \<Rightarrow> datetime \<Rightarrow> Simulator \<Rightarrow> Simulator" where
  "worker_monitor_tick fails current_time s =
     worker_monitor_loop fails current_time (map fst (workers s)) s"

subsection \<open>The handler of POST /api/update-job-rate\<close>

text \<open>
  \<open>float(x)\<close>. An integer beyond the range of a double raises \<open>OverflowError\<close> (the first
  such integer is \<open>2^1024 - 2^970\<close>); \<open>None\<close>, a list and a dictionary raise \<open>TypeError\<close>.
  The parser of a string is the argument \<open>str_float\<close> (\<open>None\<close> where Python raises
  \<open>ValueError\<close>).
\<close>

fun py_float :: "(string \<Rightarrow> pyfloat option) \<Rightarrow> pyval \<Rightarrow> py_exc + pyfloat" where
  "py_float str_float (PyFloat x) = Inr x"
| "py_float str_float (PyInt i) =
     (if \<bar>i\<bar> \<ge> 2 ^ 1024 - 2 ^ 970 then Inl OverflowError else Inr (Finite (of_int i)))"
| "py_float str_float (PyBool b) = Inr (Finite (if b then 1 else 0))"
| "py_float str_float (PyStr t) =
     (case str_float t of None \<Rightarrow> Inl ValueError | Some x \<Rightarrow> Inr x)"
| "py_float str_float PyNone = Inl TypeError"
| "py_float str_float (PyList l) = Inl TypeError"
| "py_float str_float (PyDict d) = Inl TypeError"

text \<open>The JSON response with its HTTP status; the texts of \<open>message\<close> and \<open>error\<close> are
  left out (\<open>error\<close> keeps the exception).\<close>

record Response =
  http_status :: nat
  success :: bool
  new_rate :: "pyfloat option"
  error :: "py_exc option"

definition ok_response :: "pyfloat \<Rightarrow> Response" where
  "ok_response rate = \<lparr>http_status = 200, success = True, new_rate = Some rate, error = None\<rparr>"

definition error_response :: "py_exc \<Rightarrow> Response" where
  "error_response e = \<lparr>http_status = 400, success = False, new_rate = None, error = Some e\<rparr>"

text \<open>
  \<open>update_job_rate\<close>. \<open>body\<close> is what \<open>request.get_json()\<close> did: \<open>Inl e\<close> when it raised,
  \<open>Inr data\<close> when it returned \<open>data\<close>. \<open>data.get\<close> exists for a dictionary only.
\<close>

definition update_job_rate ::
  "(string \<Rightarrow> pyfloat option) \<Rightarrow> py_exc + pyval \<Rightarrow> Simulator \<Rightarrow> Response \<times> Simulator" where
  "update_job_rate str_float body s =
     (case body of
        Inl e \<Rightarrow> (error_response e, s)
      | Inr data \<Rightarrow>
          (case data of
             PyDict d \<Rightarrow>
               (case py_float str_float (dict_get d ''rate'' (PyFloat (Finite 2))) of
                  Inl e \<Rightarrow> (error_response e, s)
                | Inr x \<Rightarrow>
                    (let new_rate =
                           (if pf_less x (Finite (1 / 10)) then Finite (1 / 10)
                            else if pf_greater x (Finite 50) then Finite 50
                            else x)
                     in (ok_response new_rate, set_job_generation_rate new_rate s)))
           | _ \<Rightarrow> (error_response AttributeError, s)))"

section \<open>Reachable states and the retry invariant\<close>

text \<open>
  The jobs the controller still works on: those in the queue and those held by a worker
  (\<open>current_job\<close>), in the order of the dictionary.
\<close>

definition opt_list :: "'a option \<Rightarrow> 'a list" where
  "opt_list x = (case x of None \<Rightarrow> [] | Some a \<Rightarrow> [a])"

definition held_of :: "(string \<times> WorkerInfo) list \<Rightarrow> job_ref list" where
  "held_of al = concat (map (\<lambda>(k, w). opt_list (current_job w)) al)"

definition held_jobs :: "Simulator \<Rightarrow> job_ref list" where
  "held_jobs s = held_of (workers s)"

definition live_jobs :: "Simulator \<Rightarrow> job_ref list" where
  "live_jobs s = job_queue s @ held_jobs s"

definition retry_inv :: "Simulator \<Rightarrow> bool" where
  "retry_inv s \<longleftrightarrow>
     distinct (map fst (workers s))
   \<and> distinct (live_jobs s)
   \<and> set (live_jobs s) \<subseteq> {..<length (heap s)}
   \<and> (\<forall>i < length (heap s).
         retry_count (heap s ! i) \<le> max_retries (heap s ! i)
       \<or> (retry_count (heap s ! i) = max_retries (heap s ! i) + 1
          \<and> status (heap s ! i) = FAILED \<and> i \<notin> set (live_jobs s)))"

text \<open>
  The states of the simulator: the initial one, and what the operations make of a state.
  The ticks of the five activities, \<open>add_worker\<close>, the rate handler and the recovery are
  the code's own entry points; a recovery may run at any time, and \<open>r_failure\<close> allows the
  failure handler on any worker, which covers more than the two callers of the source
  (they fail online workers only).
\<close>

inductive reachable :: "Simulator \<Rightarrow> bool" where
  r_init: "reachable (init_simulator now)"
| r_running: "reachable s \<Longrightarrow> reachable (s\<lparr>running := b\<rparr>)"
| r_add_worker: "reachable s \<Longrightarrow> reachable (add_worker wid fp now s)"
| r_emit: "reachable s \<Longrightarrow> reachable (job_generator_emit jtype prio params now r1 r2 r3 s)"
| r_schedule: "reachable s \<Longrightarrow> reachable (job_scheduler_tick now r s)"
| r_execute: "reachable s \<Longrightarrow> reachable (job_executor_tick body nows s)"
| r_fault: "reachable s \<Longrightarrow> reachable (fault_injector_tick fails s)"
| r_monitor: "reachable s \<Longrightarrow> reachable (worker_monitor_tick fails now s)"
| r_failure: "reachable s \<Longrightarrow> simulate_worker_failure wid s = Inr s' \<Longrightarrow> reachable s'"
| r_recover: "reachable s \<Longrightarrow> reachable (recover_worker wid now s)"
| r_rate: "reachable s \<Longrightarrow> reachable (snd (update_job_rate str_float body s))"

section \<open>Concrete states\<close>

definition example_job ::
  "string \<Rightarrow> string \<Rightarrow> JobPriority \<Rightarrow> JobStatus \<Rightarrow> string option \<Rightarrow> int \<Rightarrow> Job" where
  "example_job jid jtype prio st wid k =
     \<lparr> job_id = jid, job_type = jtype, priority = prio, status = st, created_at = 0,
       started_at = (if st = RUNNING then Some 1 else None), completed_at = None,
       worker_id = wid, parameters = [], result = None, error_message = None,
       retry_count = k, max_retries = 3 \<rparr>"

definition example_worker :: "string \<Rightarrow> string \<Rightarrow> job_ref option \<Rightarrow> WorkerInfo" where
  "example_worker wid st cj =
     \<lparr> w_worker_id = wid, w_status = st, current_job = cj, last_heartbeat = 0,
       failure_probability = Finite 1, w_recovery_time = 30 \<rparr>"

text \<open>One busy worker \<open>w1\<close> running the only job, which has been retried \<open>k\<close> times.\<close>

definition busy_state :: "int \<Rightarrow> Simulator" where
  "busy_state k =
     (init_simulator 0)
       \<lparr> workers := [(''w1'', example_worker ''w1'' ''busy'' (Some 0))],
         jobs := [(''io-batch-1000'', 0)],
         heap := [example_job ''io-batch-1000'' ''sleep'' LOW RUNNING (Some ''w1'') k],
         stats := (stats (init_simulator 0))\<lparr>total_jobs := 1, active_workers := 1\<rparr> \<rparr>"

text \<open>The state \<open>busy_state 3\<close> after its worker has failed.\<close>

definition exhausted_state :: Simulator where
  "exhausted_state =
     (busy_state 3)
       \<lparr> workers := [(''w1'', example_worker ''w1'' ''failed'' None)],
         stats := (stats (busy_state 3))
                    \<lparr>failed_jobs := 1, worker_failures := 1, active_workers := 0\<rparr>,
         heap := [(example_job ''io-batch-1000'' ''sleep'' LOW FAILED None 4)
                    \<lparr>error_message := Some ''Max retries exceeded due to worker failures''\<rparr>] \<rparr>"


text \<open>A worker, one generated job, one scheduler tick.\<close>

definition one_job_state :: Simulator where
  "one_job_state =
     job_scheduler_tick 2 0
       (job_generator_emit ''sleep'' LOW [] 1 0 0 0
         (add_worker ''w1'' (Finite 1) 0 (init_simulator 0)))"

text \<open>The workers that hold a job.\<close>

definition assigned_workers :: "Simulator \<Rightarrow> (string \<times> WorkerInfo) list" where
  "assigned_workers s = filter (\<lambda>(k, w). current_job w \<noteq> None) (workers s)"

text \<open>Two available workers and three queued jobs: LOW, CRITICAL, NORMAL.\<close>

definition sched_state :: Simulator where
  "sched_state =
     (init_simulator 0)
       \<lparr> workers := [(''w1'', example_worker ''w1'' ''online'' None),
                     (''w2'', example_worker ''w2'' ''online'' None)],
         jobs := [(''j1'', 0), (''j2'', 1), (''j3'', 2)],
         job_queue := [0, 1, 2],
         heap := [example_job ''j1'' ''sleep'' LOW PENDING None 0,
                  example_job ''j2'' ''sleep'' CRITICAL PENDING None 0,
                  example_job ''j3'' ''sleep'' NORMAL PENDING None 0],
         stats := (stats (init_simulator 0))\<lparr>total_jobs := 3, active_workers := 2\<rparr> \<rparr>"

section \<open>The executor registry\<close>

lemma job_executor_registry_order:
  "job_executor_registry =
     [SleepJobExecutor, ComputeJobExecutor, MatrixJobExecutor, FaultInjectionJobExecutor]"
  by (simp add: job_executor_registry_def register_default_executors_def register_def)

lemma get_executor_None:
  "get_executor executors job = None \<longleftrightarrow> (\<forall>e \<in> set executors. \<not> can_execute e job)"
  by (induction executors) auto

lemma get_executor_first:
  "get_executor executors job = Some e \<longleftrightarrow>
     (\<exists>i < length executors. executors ! i = e \<and> can_execute e job \<and>
        (\<forall>k < i. \<not> can_execute (executors ! k) job))"
proof (induction executors)
  case Nil
  then show ?case by simp
next
  case (Cons x xs)
  show ?case
  proof (cases "can_execute x job")
    case True
    have "(\<exists>i < length (x # xs). (x # xs) ! i = e \<and> can_execute e job \<and>
             (\<forall>k < i. \<not> can_execute ((x # xs) ! k) job)) \<longleftrightarrow> x = e"
    proof
      assume "\<exists>i < length (x # xs). (x # xs) ! i = e \<and> can_execute e job \<and>
                (\<forall>k < i. \<not> can_execute ((x # xs) ! k) job)"
      then obtain i where i: "(x # xs) ! i = e"
        "\<forall>k < i. \<not> can_execute ((x # xs) ! k) job" by blast
      have "i = 0"
      proof (rule ccontr)
        assume "i \<noteq> 0"
        then have "0 < i" by simp
        with i(2) have "\<not> can_execute ((x # xs) ! 0) job" by blast
        with True show False by simp
      qed
      with i(1) show "x = e" by simp
    next
      assume "x = e"
      with True show "\<exists>i < length (x # xs). (x # xs) ! i = e \<and> can_execute e job \<and>
                (\<forall>k < i. \<not> can_execute ((x # xs) ! k) job)"
        by (intro exI[of _ 0]) simp
    qed
    with True show ?thesis by auto
  next
    case False
    have "(\<exists>i < length (x # xs). (x # xs) ! i = e \<and> can_execute e job \<and>
             (\<forall>k < i. \<not> can_execute ((x # xs) ! k) job)) \<longleftrightarrow>
          (\<exists>i < length xs. xs ! i = e \<and> can_execute e job \<and>
             (\<forall>k < i. \<not> can_execute (xs ! k) job))" (is "?L \<longleftrightarrow> ?R")
    proof
      assume ?L
      then obtain i where i: "i < length (x # xs)" "(x # xs) ! i = e" "can_execute e job"
        "\<forall>k < i. \<not> can_execute ((x # xs) ! k) job" by blast
      from i(2,3) False have "i \<noteq> 0" by (cases i) auto
      then obtain j where j: "i = Suc j" by (cases i) auto
      have "\<forall>k < j. \<not> can_execute (xs ! k) job"
      proof (intro allI impI)
        fix k assume "k < j"
        then have "Suc k < i" using j by simp
        with i(4) have "\<not> can_execute ((x # xs) ! Suc k) job" by blast
        then show "\<not> can_execute (xs ! k) job" by simp
      qed
      with i j show ?R by (intro exI[of _ j]) simp
    next
      assume ?R
      then obtain j where j: "j < length xs" "xs ! j = e" "can_execute e job"
        "\<forall>k < j. \<not> can_execute (xs ! k) job" by blast
      have "\<forall>k < Suc j. \<not> can_execute ((x # xs) ! k) job"
      proof (intro allI impI)
        fix k assume k: "k < Suc j"
        show "\<not> can_execute ((x # xs) ! k) job"
        proof (cases k)
          case 0
          with False show ?thesis by simp
        next
          case (Suc m)
          with k j(4) show ?thesis by simp
        qed
      qed
      with j show ?L by (intro exI[of _ "Suc j"]) simp
    qed
    with False Cons.IH show ?thesis by simp
  qed
qed

lemma execute_job_no_executor:
  "(\<exists>t. execute_job body executors job = Inl (NoExecutor t)) \<longleftrightarrow>
     get_executor executors job = None"
  by (auto simp: execute_job_def split: option.splits sum.splits)

lemma default_registry_None:
  "get_executor job_executor_registry job = None \<longleftrightarrow>
     job_type job \<notin> {''sleep'', ''compute'', ''matrix'', ''fault_injection''}"
  by (simp add: job_executor_registry_order)

text \<open>
  C9. The registry resolves a job by a linear scan in registration order: the executor
  returned is the first one (lowest index) whose \<open>can_execute\<close> holds, and \<open>can_execute\<close>
  is exact equality of \<open>job_type\<close> with the executor's tag. With the default registrations
  (sleep, compute, matrix, fault\_injection, in this order) \<open>execute_job\<close> raises the
  no-executor error exactly when the job's type is none of the four tags, and the error
  then carries that job type.
\<close>

theorem registry_first_match_no_executor:
  "(get_executor executors job = Some e \<longleftrightarrow>
      (\<exists>i < length executors. executors ! i = e \<and> can_execute e job \<and>
         (\<forall>k < i. \<not> can_execute (executors ! k) job)))
   \<and> can_execute SleepJobExecutor job = (job_type job = ''sleep'')
   \<and> can_execute ComputeJobExecutor job = (job_type job = ''compute'')
   \<and> can_execute MatrixJobExecutor job = (job_type job = ''matrix'')
   \<and> can_execute FaultInjectionJobExecutor job = (job_type job = ''fault_injection'')
   \<and> job_executor_registry =
       [SleepJobExecutor, ComputeJobExecutor, MatrixJobExecutor, FaultInjectionJobExecutor]
   \<and> ((\<exists>t. execute_job body job_executor_registry job = Inl (NoExecutor t)) \<longleftrightarrow>
        job_type job \<notin> {''sleep'', ''compute'', ''matrix'', ''fault_injection''})
   \<and> (job_type job \<notin> {''sleep'', ''compute'', ''matrix'', ''fault_injection''} \<longrightarrow>
        execute_job body job_executor_registry job = Inl (NoExecutor (job_type job)))"
proof -
  have a: "get_executor executors job = Some e \<longleftrightarrow>
      (\<exists>i < length executors. executors ! i = e \<and> can_execute e job \<and>
         (\<forall>k < i. \<not> can_execute (executors ! k) job))"
    by (rule get_executor_first)
  have b: "(\<exists>t. execute_job body job_executor_registry job = Inl (NoExecutor t)) \<longleftrightarrow>
        job_type job \<notin> {''sleep'', ''compute'', ''matrix'', ''fault_injection''}"
    by (rule trans[OF execute_job_no_executor default_registry_None])
  have c: "job_type job \<notin> {''sleep'', ''compute'', ''matrix'', ''fault_injection''} \<longrightarrow>
        execute_job body job_executor_registry job = Inl (NoExecutor (job_type job))"
  proof
    assume "job_type job \<notin> {''sleep'', ''compute'', ''matrix'', ''fault_injection''}"
    then have "get_executor job_executor_registry job = None"
      by (rule iffD2[OF default_registry_None])
    then show "execute_job body job_executor_registry job = Inl (NoExecutor (job_type job))"
      by (simp add: execute_job_def)
  qed
  from a b c show ?thesis
    by (simp add: job_executor_registry_order)
qed

theorem registry_first_match_no_executor_witness:
  "job_type (example_job ''j'' ''render'' LOW RUNNING None 0)
     \<notin> {''sleep'', ''compute'', ''matrix'', ''fault_injection''}
   \<and> execute_job (\<lambda>e j. Inr ''done'') job_executor_registry
        (example_job ''j'' ''render'' LOW RUNNING None 0) = Inl (NoExecutor ''render'')
   \<and> get_executor job_executor_registry (example_job ''j'' ''matrix'' LOW RUNNING None 0)
        = Some MatrixJobExecutor
   \<and> execute_job (\<lambda>e j. Inr ''done'') job_executor_registry
        (example_job ''j'' ''matrix'' LOW RUNNING None 0) = Inr ''done''"
  using registry_first_match_no_executor
          [of job_executor_registry "example_job ''j'' ''render'' LOW RUNNING None 0"
              MatrixJobExecutor "\<lambda>e j. Inr ''done''"]
  by (simp add: example_job_def job_executor_registry_order execute_job_def)

section \<open>Worker failure\<close>

lemma map_of_update: "map_of (AList.update k v al) = (map_of al)(k \<mapsto> v)"
  by (rule AList.update_conv')

text \<open>
  C4. A worker \<open>wid\<close> holding job \<open>j\<close> with \<open>retry_count = k\<close> fails. The handler returns
  and the worker's \<open>current_job\<close> is cleared. If \<open>k < max_retries\<close>, the job is appended to
  the queue exactly once (the queue is the old queue followed by \<open>j\<close>), with
  \<open>retry_count = k + 1\<close>, status PENDING, \<open>worker_id\<close> and \<open>started_at\<close> null, and
  \<open>failed_jobs\<close> is untouched. If \<open>k = max_retries\<close>, the job becomes FAILED with the
  message "Max retries exceeded due to worker failures", \<open>failed_jobs\<close> grows by exactly one
  and the queue is unchanged.
\<close>

theorem worker_failure_requeue_or_fail:
  assumes "map_of (workers s) wid = Some worker"
    and "current_job worker = Some j"
    and "retry_count (heap s ! j) = k"
    and "j < length (heap s)"
  shows "\<exists>s'. simulate_worker_failure wid s = Inr s'
     \<and> map_option current_job (map_of (workers s') wid) = Some None
     \<and> (k < max_retries (heap s ! j) \<longrightarrow>
          job_queue s' = job_queue s @ [j]
        \<and> retry_count (heap s' ! j) = k + 1
        \<and> status (heap s' ! j) = PENDING
        \<and> worker_id (heap s' ! j) = None
        \<and> started_at (heap s' ! j) = None
        \<and> failed_jobs (stats s') = failed_jobs (stats s))
     \<and> (k = max_retries (heap s ! j) \<longrightarrow>
          status (heap s' ! j) = FAILED
        \<and> error_message (heap s' ! j) = Some ''Max retries exceeded due to worker failures''
        \<and> failed_jobs (stats s') = failed_jobs (stats s) + 1
        \<and> job_queue s' = job_queue s)"
  using assms
  by (auto simp: simulate_worker_failure_def Let_def map_of_update)

theorem worker_failure_requeue_or_fail_witness:
  "(\<exists>s'. simulate_worker_failure ''w1'' (busy_state 1) = Inr s'
      \<and> job_queue s' = [0] \<and> retry_count (heap s' ! 0) = 2 \<and> status (heap s' ! 0) = PENDING)
   \<and> (\<exists>s'. simulate_worker_failure ''w1'' (busy_state 3) = Inr s'
      \<and> job_queue s' = [] \<and> status (heap s' ! 0) = FAILED \<and> failed_jobs (stats s') = 1)"
proof -
  have a: "map_of (workers (busy_state k)) ''w1'' = Some (example_worker ''w1'' ''busy'' (Some 0))"
    for k by (simp add: busy_state_def)
  have b: "current_job (example_worker ''w1'' ''busy'' (Some 0)) = Some 0"
    by (simp add: example_worker_def)
  have c: "retry_count (heap (busy_state k) ! 0) = k" for k
    by (simp add: busy_state_def example_job_def)
  have d: "0 < length (heap (busy_state k))" for k
    by (simp add: busy_state_def)
  have m: "max_retries (heap (busy_state k) ! 0) = 3" for k
    by (simp add: busy_state_def example_job_def)
  have q: "job_queue (busy_state k) = []" "failed_jobs (stats (busy_state k)) = 0" for k
    by (simp_all add: busy_state_def init_simulator_def)
  from worker_failure_requeue_or_fail[OF a b c d, of 1]
    worker_failure_requeue_or_fail[OF a b c d, of 3]
  show ?thesis
    by (auto simp: m q)
qed

section \<open>The rate handler\<close>

lemma update_job_rate_float_raises:
  assumes "py_float str_float (dict_get d ''rate'' (PyFloat (Finite 2))) = Inl e"
  shows "update_job_rate str_float (Inr (PyDict d)) s = (error_response e, s)"
  using assms by (simp add: update_job_rate_def)

lemma update_job_rate_clamped:
  assumes "py_float str_float (dict_get d ''rate'' (PyFloat (Finite 2))) = Inr x"
    and "x \<noteq> NaN"
  shows "\<exists>y. update_job_rate str_float (Inr (PyDict d)) s =
               (ok_response y, s\<lparr>job_generation_rate := y\<rparr>)
          \<and> \<not> pf_less y (Finite (1 / 10)) \<and> \<not> pf_greater y (Finite 50) \<and> y \<noteq> NaN
          \<and> (pf_less x (Finite (1 / 10)) \<longrightarrow> y = Finite (1 / 10))
          \<and> (pf_greater x (Finite 50) \<longrightarrow> y = Finite 50)
          \<and> (\<not> pf_less x (Finite (1 / 10)) \<and> \<not> pf_greater x (Finite 50) \<longrightarrow> y = x)"
  using assms
  by (cases x) (auto simp: update_job_rate_def Let_def set_job_generation_rate_def pf_greater_def)

lemma update_job_rate_examples:
  "fst (update_job_rate str_float (Inr (PyDict [(''rate'', PyInt 999)])) s) = ok_response (Finite 50)"
  "fst (update_job_rate str_float (Inr (PyDict [(''rate'', PyInt 0)])) s) = ok_response (Finite (1 / 10))"
  "fst (update_job_rate str_float (Inr (PyDict [(''rate'', PyInt 7)])) s) = ok_response (Finite 7)"
  by (simp_all add: update_job_rate_def dict_get_def pf_greater_def Let_def)

lemma update_job_rate_huge_int:
  "update_job_rate str_float (Inr (PyDict [(''rate'', PyInt (10 ^ 400))])) s
     = (error_response OverflowError, s)"
  by (simp add: update_job_rate_def dict_get_def)

lemma update_job_rate_not_a_dict:
  "update_job_rate str_float (Inr (PyList l)) s = (error_response AttributeError, s)"
  "update_job_rate str_float (Inr PyNone) s = (error_response AttributeError, s)"
  "update_job_rate str_float (Inl e) s = (error_response e, s)"
  by (simp_all add: update_job_rate_def)

lemma update_job_rate_string_rejected:
  assumes "str_float ''abc'' = None"
  shows "update_job_rate str_float (Inr (PyDict [(''rate'', PyStr ''abc'')])) s
     = (\<lparr>http_status = 400, success = False, new_rate = None, error = Some ValueError\<rparr>, s)"
  using assms by (simp add: update_job_rate_def dict_get_def error_response_def)

text \<open>
  C8, at the input where the code departs from it. A body whose rate is the float NaN
  (\<open>{"rate": NaN}\<close>, which Python's JSON parser accepts; \<open>{"rate": "nan"}\<close> converts to the
  same value) passes both comparisons of the clamp: the handler answers 200 with
  \<open>success\<close> true, \<open>new_rate\<close> NaN, and sets the generation rate to NaN, a value that is
  neither inside \<open>[0.1, 50.0]\<close> nor rejected with HTTP 400.
\<close>

theorem update_job_rate_nan_accepted:
  "update_job_rate str_float (Inr (PyDict [(''rate'', PyFloat NaN)])) s =
     (\<lparr>http_status = 200, success = True, new_rate = Some NaN, error = None\<rparr>,
      s\<lparr>job_generation_rate := NaN\<rparr>)
   \<and> \<not> pf_less NaN (Finite 50) \<and> \<not> pf_less (Finite (1 / 10)) NaN"
  by (simp add: update_job_rate_def dict_get_def ok_response_def set_job_generation_rate_def
      pf_greater_def Let_def)

text \<open>
  C10. A body that parses to a JSON object without the key \<open>rate\<close> (the empty object, for
  one) is accepted: HTTP 200, \<open>success\<close> true, and the generation rate is set to the
  default 2.0, whatever it was before.
\<close>

theorem update_job_rate_missing_key:
  assumes "map_of d ''rate'' = None"
  shows "update_job_rate str_float (Inr (PyDict d)) s =
           (\<lparr>http_status = 200, success = True, new_rate = Some (Finite 2), error = None\<rparr>,
            s\<lparr>job_generation_rate := Finite 2\<rparr>)"
  using assms
  by (simp add: update_job_rate_def dict_get_def ok_response_def set_job_generation_rate_def
      pf_greater_def Let_def)

theorem update_job_rate_missing_key_witness:
  "map_of ([] :: (string \<times> pyval) list) ''rate'' = None
   \<and> fst (update_job_rate (\<lambda>t. None) (Inr (PyDict []))
            (set_job_generation_rate (Finite 7) (init_simulator 0)))
       = \<lparr>http_status = 200, success = True, new_rate = Some (Finite 2), error = None\<rparr>
   \<and> job_generation_rate
        (snd (update_job_rate (\<lambda>t. None) (Inr (PyDict []))
               (set_job_generation_rate (Finite 7) (init_simulator 0))))
       = Finite 2"
  using update_job_rate_missing_key
          [of "[]" "\<lambda>t. None" "set_job_generation_rate (Finite 7) (init_simulator 0)"]
  by simp

section \<open>The job generator\<close>

lemma length_update:
  "length (AList.update k v al) = (if k \<in> fst ` set al then length al else length al + 1)"
  by (induction al) auto

lemma job_generator_emit_counts:
  "total_jobs (stats (job_generator_emit jtype prio params now r1 r2 r3 s))
     = total_jobs (stats s) + 1
   \<and> length (jobs (job_generator_emit jtype prio params now r1 r2 r3 s))
     = (if generate_job_id jtype (lower (priority_name prio)) r1 r2 r3 \<in> fst ` set (jobs s)
        then length (jobs s) else length (jobs s) + 1)
   \<and> job_queue (job_generator_emit jtype prio params now r1 r2 r3 s)
     = job_queue s @ [length (heap s)]"
  by (simp add: job_generator_emit_def Let_def length_update create_job_def)

text \<open>
  C6, at the input where the code departs from it. Two emissions whose draws in
  \<open>generate_job_id\<close> coincide produce the same id \<open>gpu-gpu-1234\<close>: the second job
  overwrites the first in \<open>jobs\<close>, so after it \<open>total_jobs\<close> is 2 while \<open>jobs\<close> has one
  entry (both jobs are in the queue).
\<close>

theorem generator_id_collision:
  "generate_job_id ''matrix'' (lower (priority_name NORMAL)) 1 0 234 = ''gpu-gpu-1234''
   \<and> total_jobs (stats (job_generator_emit ''matrix'' NORMAL [(''matrix_size'', PyInt 800)] 2 1 0 234
        (job_generator_emit ''matrix'' NORMAL [(''matrix_size'', PyInt 500)] 1 1 0 234 (init_simulator 0)))) = 2
   \<and> length (jobs (job_generator_emit ''matrix'' NORMAL [(''matrix_size'', PyInt 800)] 2 1 0 234
        (job_generator_emit ''matrix'' NORMAL [(''matrix_size'', PyInt 500)] 1 1 0 234 (init_simulator 0)))) = 1
   \<and> job_queue (job_generator_emit ''matrix'' NORMAL [(''matrix_size'', PyInt 800)] 2 1 0 234
        (job_generator_emit ''matrix'' NORMAL [(''matrix_size'', PyInt 500)] 1 1 0 234 (init_simulator 0))) = [0, 1]"
  by (simp add: job_generator_emit_def create_job_def generate_job_id_def Let_def choice_def
      randint_def dict_get_def type_prefixes_def priority_suffixes_def lower_def str_nat.simps
      init_simulator_def)

section \<open>The scheduler\<close>

lemma mset_py_sort_reverse: "mset (py_sort_reverse key xs) = mset xs"
  by (simp add: py_sort_reverse_def)

lemma set_py_sort_reverse: "set (py_sort_reverse key xs) = set xs"
  by (simp add: py_sort_reverse_def)

lemma length_py_sort_reverse: "length (py_sort_reverse key xs) = length xs"
  by (simp add: py_sort_reverse_def)

lemma py_sort_reverse_Nil: "py_sort_reverse key xs = [] \<longleftrightarrow> xs = []"
  using length_py_sort_reverse[of key xs] by (metis length_0_conv)

lemma py_sort_reverse_descending: "sorted (rev (map key (py_sort_reverse key xs)))"
  by (simp add: py_sort_reverse_def rev_map)

lemma py_sort_reverse_stable:
  "filter (\<lambda>x. key x = p) (py_sort_reverse key xs) = filter (\<lambda>x. key x = p) xs"
  by (simp add: py_sort_reverse_def rev_filter[symmetric] sort_key_stable)

lemma py_sort_reverse_head_max:
  assumes "py_sort_reverse key xs = j # rest" and "q \<in> set rest"
  shows "key q \<le> key j"
proof -
  have "sorted (rev (map key (j # rest)))"
    using py_sort_reverse_descending[of key xs] assms(1) by simp
  then have "\<forall>x \<in> set (rev (map key rest)). x \<le> key j"
    by (simp add: sorted_append)
  with assms(2) show ?thesis by auto
qed

lemma choice_mem: "xs \<noteq> [] \<Longrightarrow> choice xs r \<in> set xs"
  by (simp add: choice_def)

lemma job_scheduler_tick_dispatch:
  assumes "job_queue s \<noteq> []"
    and "available_workers s \<noteq> []"
  obtains job rest k worker where
    "py_sort_reverse (\<lambda>j. priority_value (priority (heap s ! j))) (job_queue s) = job # rest"
    "(k, worker) = choice (available_workers s) r"
    "(k, worker) \<in> set (workers s)" "is_available worker"
    "job_scheduler_tick now r s =
       s\<lparr> job_queue := rest,
          workers := AList.update k (worker\<lparr>current_job := Some job, w_status := ''busy''\<rparr>) (workers s),
          heap := (heap s)[job := (heap s ! job)\<lparr> status := RUNNING, started_at := Some now,
                                                 worker_id := Some (w_worker_id worker) \<rparr>] \<rparr>"
proof -
  let ?q = "py_sort_reverse (\<lambda>j. priority_value (priority (heap s ! j))) (job_queue s)"
  let ?av = "available_workers s"
  from assms(1) have "?q \<noteq> []" by (simp add: py_sort_reverse_Nil)
  then obtain job rest where q: "?q = job # rest" by (cases ?q) auto
  obtain k worker where c: "(k, worker) = choice ?av r" by (cases "choice ?av r") auto
  have "choice ?av r \<in> set ?av" using assms(2) by (rule choice_mem)
  with c have m: "(k, worker) \<in> set (workers s)" "is_available worker"
    by (auto simp: available_workers_def)
  have "job_scheduler_tick now r s =
       s\<lparr> job_queue := rest,
          workers := AList.update k (worker\<lparr>current_job := Some job, w_status := ''busy''\<rparr>) (workers s),
          heap := (heap s)[job := (heap s ! job)\<lparr> status := RUNNING, started_at := Some now,
                                                 worker_id := Some (w_worker_id worker) \<rparr>] \<rparr>"
    using assms q c[symmetric]
    by (simp add: job_scheduler_tick_def Let_def available_workers_def)
  with q c m show ?thesis by (rule that)
qed


lemma priority_after_update:
  "priority ((h[j := (h ! j)\<lparr>status := a, started_at := b, worker_id := c\<rparr>]) ! q) = priority (h ! q)"
  by (cases "j < length h") (simp_all add: nth_list_update not_less list_update_beyond)

text \<open>
  C7. At a scheduler tick with a non-empty queue and at least one available worker, the job
  dispatched (the one an available worker receives) has a priority greater than or equal to
  the priority of every job that remains in the queue. The dispatched job followed by the
  remaining queue is the old queue sorted by priority in descending order (same jobs, same
  multiplicities), and jobs of equal priority keep their earlier order.
\<close>

theorem scheduler_dispatches_highest_priority:
  assumes "job_queue s \<noteq> []"
    and "available_workers s \<noteq> []"
    and "s' = job_scheduler_tick now r s"
  shows "\<exists>job k worker.
      (k, worker) \<in> set (workers s) \<and> is_available worker
    \<and> map_of (workers s') k = Some (worker\<lparr>current_job := Some job, w_status := ''busy''\<rparr>)
    \<and> job # job_queue s' =
        py_sort_reverse (\<lambda>j. priority_value (priority (heap s ! j))) (job_queue s)
    \<and> mset (job # job_queue s') = mset (job_queue s)
    \<and> (\<forall>q \<in> set (job_queue s').
          priority_value (priority (heap s' ! q)) \<le> priority_value (priority (heap s' ! job)))
    \<and> sorted (rev (map (\<lambda>j. priority_value (priority (heap s' ! j))) (job # job_queue s')))
    \<and> (\<forall>p. filter (\<lambda>j. priority_value (priority (heap s' ! j)) = p) (job # job_queue s') =
            filter (\<lambda>j. priority_value (priority (heap s' ! j)) = p) (job_queue s))"
proof -
  let ?key = "\<lambda>j. priority_value (priority (heap s ! j))"
  from assms(1,2) obtain job rest k worker where
    q: "py_sort_reverse ?key (job_queue s) = job # rest"
    and m: "(k, worker) \<in> set (workers s)" "is_available worker"
    and t: "job_scheduler_tick now r s =
       s\<lparr> job_queue := rest,
          workers := AList.update k (worker\<lparr>current_job := Some job, w_status := ''busy''\<rparr>) (workers s),
          heap := (heap s)[job := (heap s ! job)\<lparr> status := RUNNING, started_at := Some now,
                                                 worker_id := Some (w_worker_id worker) \<rparr>] \<rparr>"
    by (rule job_scheduler_tick_dispatch[where r = r and now = now])
  have jq: "job_queue s' = rest" using t assms(3) by simp
  have pr: "priority (heap s' ! i) = priority (heap s ! i)" for i
    using t assms(3) by (simp add: priority_after_update)
  have w: "map_of (workers s') k = Some (worker\<lparr>current_job := Some job, w_status := ''busy''\<rparr>)"
    using t assms(3) by (simp add: map_of_update)
  have a: "mset (job # rest) = mset (job_queue s)"
    using mset_py_sort_reverse[of ?key "job_queue s"] q by simp
  have b: "\<forall>x \<in> set rest. ?key x \<le> ?key job"
    using py_sort_reverse_head_max[OF q] by blast
  have c: "sorted (rev (map ?key (job # rest)))"
    using py_sort_reverse_descending[of ?key "job_queue s"] q by simp
  have d: "\<forall>p. filter (\<lambda>j. ?key j = p) (job # rest) = filter (\<lambda>j. ?key j = p) (job_queue s)"
    using py_sort_reverse_stable[of ?key _ "job_queue s"] q by simp
  show ?thesis
    unfolding jq pr
    by (rule exI[of _ job], rule exI[of _ k], rule exI[of _ worker])
      (use m w q a b c d in simp)
qed

theorem scheduler_dispatches_highest_priority_witness:
  "job_queue sched_state \<noteq> []
   \<and> available_workers sched_state \<noteq> []
   \<and> job_queue (job_scheduler_tick 7 0 sched_state) = [2, 0]
   \<and> map_option current_job (map_of (workers (job_scheduler_tick 7 0 sched_state)) ''w1'') = Some (Some 1)
   \<and> priority (heap (job_scheduler_tick 7 0 sched_state) ! 1) = CRITICAL
   \<and> priority (heap (job_scheduler_tick 7 0 sched_state) ! 2) = NORMAL
   \<and> priority (heap (job_scheduler_tick 7 0 sched_state) ! 0) = LOW"
proof -
  have a: "job_queue sched_state \<noteq> []" by (simp add: sched_state_def)
  have b: "available_workers sched_state \<noteq> []"
    by (simp add: sched_state_def available_workers_def is_available_def example_worker_def)
  have t: "job_scheduler_tick 7 0 sched_state =
     sched_state\<lparr> job_queue := [2, 0],
        workers := [(''w1'', example_worker ''w1'' ''busy'' (Some 1)),
                     (''w2'', example_worker ''w2'' ''online'' None)],
        heap := [example_job ''j1'' ''sleep'' LOW PENDING None 0,
                  (example_job ''j2'' ''sleep'' CRITICAL PENDING None 0)
                     \<lparr>status := RUNNING, started_at := Some 7, worker_id := Some ''w1''\<rparr>,
                  example_job ''j3'' ''sleep'' NORMAL PENDING None 0]\<rparr>"
    by (simp add: job_scheduler_tick_def sched_state_def Let_def py_sort_reverse_def
        available_workers_def is_available_def example_worker_def example_job_def choice_def
        init_simulator_def)
  from scheduler_dispatches_highest_priority[OF a b refl, of 7 0] a b
  show ?thesis
    by (simp add: t) (simp add: sched_state_def example_worker_def example_job_def)
qed


lemma update_split:
  assumes "(k, v) \<in> set al" and "distinct (map fst al)"
  shows "\<exists>xs ys. al = xs @ (k, v) # ys \<and> AList.update k v' al = xs @ (k, v') # ys"
  using assms
proof (induction al)
  case Nil
  then show ?case by simp
next
  case (Cons a al)
  obtain k0 v0 where a: "a = (k0, v0)" by (cases a)
  show ?case
  proof (cases "(k, v) = a")
    case True
    then have "a # al = [] @ (k, v) # al \<and> AList.update k v' (a # al) = [] @ (k, v') # al"
      by auto
    then show ?thesis by blast
  next
    case False
    with Cons.prems have mem: "(k, v) \<in> set al" by simp
    then have "k \<in> fst ` set al" by force
    with Cons.prems(2) a have ne: "k0 \<noteq> k" by auto
    from Cons.IH[OF mem] Cons.prems(2) obtain xs ys where
      "al = xs @ (k, v) # ys" "AList.update k v' al = xs @ (k, v') # ys" by auto
    with a ne have "a # al = (a # xs) @ (k, v) # ys
        \<and> AList.update k v' (a # al) = (a # xs) @ (k, v') # ys" by simp
    then show ?thesis by blast
  qed
qed

lemma counts_after_assign:
  assumes "(k, worker) \<in> set (workers s)" and "distinct (map fst (workers s))"
    and "is_available worker"
    and "workers s' = AList.update k (worker\<lparr>current_job := Some job, w_status := ''busy''\<rparr>) (workers s)"
  shows "length (available_workers s') + 1 = length (available_workers s)"
    and "length (assigned_workers s') = length (assigned_workers s) + 1"
proof -
  from update_split[OF assms(1,2)] obtain xs ys where
    "workers s = xs @ (k, worker) # ys"
    "workers s' = xs @ (k, worker\<lparr>current_job := Some job, w_status := ''busy''\<rparr>) # ys"
    unfolding assms(4) by blast
  with assms(3) show "length (available_workers s') + 1 = length (available_workers s)"
    and "length (assigned_workers s') = length (assigned_workers s) + 1"
    by (simp_all add: available_workers_def assigned_workers_def is_available_def)
qed

text \<open>
  C1, amended. A scheduler tick dispatches at most one job. With an empty queue the tick
  changes nothing; with a non-empty queue and no available worker it only sorts the queue
  (every other field of the state is as before).
  With a non-empty queue and an available worker it dispatches exactly one job, whatever
  the number of queued jobs and of available workers: the head of the sorted queue goes to
  the available worker picked at random; the worker's \<open>current_job\<close> is the job and its
  status \<open>busy\<close>; the job's status is RUNNING, its \<open>started_at\<close> is now and its
  \<open>worker_id\<close> is the worker's id; the queue is one shorter, one more worker holds a job
  and one fewer is available; nothing else in the state changes.
\<close>

theorem scheduler_tick_dispatches_one:
  assumes "distinct (map fst (workers s))"
    and "set (job_queue s) \<subseteq> {..<length (heap s)}"
    and "s' = job_scheduler_tick now r s"
  shows "(job_queue s = [] \<longrightarrow> s' = s)
    \<and> (job_queue s \<noteq> [] \<and> available_workers s = [] \<longrightarrow>
         s' = s\<lparr>job_queue :=
                  py_sort_reverse (\<lambda>j. priority_value (priority (heap s ! j))) (job_queue s)\<rparr>)
    \<and> (job_queue s \<noteq> [] \<and> available_workers s \<noteq> [] \<longrightarrow>
         (\<exists>job k worker.
            job # job_queue s' =
              py_sort_reverse (\<lambda>j. priority_value (priority (heap s ! j))) (job_queue s)
          \<and> (k, worker) = choice (available_workers s) r
          \<and> (k, worker) \<in> set (workers s) \<and> is_available worker
          \<and> workers s' =
              AList.update k (worker\<lparr>current_job := Some job, w_status := ''busy''\<rparr>) (workers s)
          \<and> map_of (workers s') k =
              Some (worker\<lparr>current_job := Some job, w_status := ''busy''\<rparr>)
          \<and> heap s' = (heap s)[job := (heap s ! job)\<lparr> status := RUNNING, started_at := Some now,
                                     worker_id := Some (w_worker_id worker) \<rparr>]
          \<and> s' = s\<lparr> job_queue := job_queue s',
                    workers := AList.update k
                      (worker\<lparr>current_job := Some job, w_status := ''busy''\<rparr>) (workers s),
                    heap := (heap s)[job := (heap s ! job)\<lparr> status := RUNNING,
                      started_at := Some now, worker_id := Some (w_worker_id worker) \<rparr>] \<rparr>
          \<and> status (heap s' ! job) = RUNNING
          \<and> started_at (heap s' ! job) = Some now
          \<and> worker_id (heap s' ! job) = Some (w_worker_id worker)
          \<and> length (job_queue s') + 1 = length (job_queue s)
          \<and> length (assigned_workers s') = length (assigned_workers s) + 1
          \<and> length (available_workers s') + 1 = length (available_workers s)))"
proof -
  let ?key = "\<lambda>j. priority_value (priority (heap s ! j))"
  have p1: "job_queue s = [] \<longrightarrow> s' = s"
    using assms(3) by (simp add: job_scheduler_tick_def)
  have p2: "job_queue s \<noteq> [] \<and> available_workers s = [] \<longrightarrow>
         s' = s\<lparr>job_queue := py_sort_reverse ?key (job_queue s)\<rparr>"
    using assms(3) by (simp add: job_scheduler_tick_def Let_def available_workers_def)
  have p3: "job_queue s \<noteq> [] \<and> available_workers s \<noteq> [] \<longrightarrow>
         (\<exists>job k worker.
            job # job_queue s' = py_sort_reverse ?key (job_queue s)
          \<and> (k, worker) = choice (available_workers s) r
          \<and> (k, worker) \<in> set (workers s) \<and> is_available worker
          \<and> workers s' =
              AList.update k (worker\<lparr>current_job := Some job, w_status := ''busy''\<rparr>) (workers s)
          \<and> map_of (workers s') k =
              Some (worker\<lparr>current_job := Some job, w_status := ''busy''\<rparr>)
          \<and> heap s' = (heap s)[job := (heap s ! job)\<lparr> status := RUNNING, started_at := Some now,
                                     worker_id := Some (w_worker_id worker) \<rparr>]
          \<and> s' = s\<lparr> job_queue := job_queue s',
                    workers := AList.update k
                      (worker\<lparr>current_job := Some job, w_status := ''busy''\<rparr>) (workers s),
                    heap := (heap s)[job := (heap s ! job)\<lparr> status := RUNNING,
                      started_at := Some now, worker_id := Some (w_worker_id worker) \<rparr>] \<rparr>
          \<and> status (heap s' ! job) = RUNNING
          \<and> started_at (heap s' ! job) = Some now
          \<and> worker_id (heap s' ! job) = Some (w_worker_id worker)
          \<and> length (job_queue s') + 1 = length (job_queue s)
          \<and> length (assigned_workers s') = length (assigned_workers s) + 1
          \<and> length (available_workers s') + 1 = length (available_workers s))"
  proof
    assume a: "job_queue s \<noteq> [] \<and> available_workers s \<noteq> []"
    then have a1: "job_queue s \<noteq> []" and a2: "available_workers s \<noteq> []" by simp_all
    from a1 a2 obtain job rest k worker where
      q: "py_sort_reverse ?key (job_queue s) = job # rest"
      and c: "(k, worker) = choice (available_workers s) r"
      and m: "(k, worker) \<in> set (workers s)" "is_available worker"
      and t: "job_scheduler_tick now r s =
         s\<lparr> job_queue := rest,
            workers := AList.update k (worker\<lparr>current_job := Some job, w_status := ''busy''\<rparr>) (workers s),
            heap := (heap s)[job := (heap s ! job)\<lparr> status := RUNNING, started_at := Some now,
                                                   worker_id := Some (w_worker_id worker) \<rparr>] \<rparr>"
      by (rule job_scheduler_tick_dispatch[where r = r and now = now])
    have jq: "job_queue s' = rest" using t assms(3) by simp
    have ws: "workers s' =
        AList.update k (worker\<lparr>current_job := Some job, w_status := ''busy''\<rparr>) (workers s)"
      using t assms(3) by simp
    have hp: "heap s' = (heap s)[job := (heap s ! job)\<lparr> status := RUNNING, started_at := Some now,
                                       worker_id := Some (w_worker_id worker) \<rparr>]"
      using t assms(3) by simp
    have full: "s' = s\<lparr> job_queue := rest,
                    workers := AList.update k
                      (worker\<lparr>current_job := Some job, w_status := ''busy''\<rparr>) (workers s),
                    heap := (heap s)[job := (heap s ! job)\<lparr> status := RUNNING,
                      started_at := Some now, worker_id := Some (w_worker_id worker) \<rparr>] \<rparr>"
      using t assms(3) by simp
    have "job \<in> set (job_queue s)"
      using set_py_sort_reverse[of ?key "job_queue s"] q by auto
    with assms(2) have lt: "job < length (heap s)" by auto
    have len: "length rest + 1 = length (job_queue s)"
      using length_py_sort_reverse[of ?key "job_queue s"] q by simp
    note cnt = counts_after_assign[OF m(1) assms(1) m(2) ws]
    show "\<exists>job k worker.
              job # job_queue s' = py_sort_reverse ?key (job_queue s)
            \<and> (k, worker) = choice (available_workers s) r
            \<and> (k, worker) \<in> set (workers s) \<and> is_available worker
            \<and> workers s' =
                AList.update k (worker\<lparr>current_job := Some job, w_status := ''busy''\<rparr>) (workers s)
            \<and> map_of (workers s') k =
                Some (worker\<lparr>current_job := Some job, w_status := ''busy''\<rparr>)
            \<and> heap s' = (heap s)[job := (heap s ! job)\<lparr> status := RUNNING, started_at := Some now,
                                       worker_id := Some (w_worker_id worker) \<rparr>]
            \<and> s' = s\<lparr> job_queue := job_queue s',
                    workers := AList.update k
                      (worker\<lparr>current_job := Some job, w_status := ''busy''\<rparr>) (workers s),
                    heap := (heap s)[job := (heap s ! job)\<lparr> status := RUNNING,
                      started_at := Some now, worker_id := Some (w_worker_id worker) \<rparr>] \<rparr>
            \<and> status (heap s' ! job) = RUNNING
            \<and> started_at (heap s' ! job) = Some now
            \<and> worker_id (heap s' ! job) = Some (w_worker_id worker)
            \<and> length (job_queue s') + 1 = length (job_queue s)
            \<and> length (assigned_workers s') = length (assigned_workers s) + 1
            \<and> length (available_workers s') + 1 = length (available_workers s)"
      unfolding jq
      by (rule exI[of _ job], rule exI[of _ k], rule exI[of _ worker])
        (use q c m ws hp lt len cnt full in \<open>simp add: map_of_update\<close>)
  qed
  from p1 p2 p3 show ?thesis by (intro conjI)
qed

text \<open>
  C1 fails as stated: with three queued jobs and two available workers, one tick assigns a
  single job, not \<open>min 3 2 = 2\<close>; one worker stays available and two jobs stay queued.
\<close>

theorem scheduler_tick_not_min_counterexample:
  "length (job_queue sched_state) = 3
   \<and> length (available_workers sched_state) = 2
   \<and> length (assigned_workers sched_state) = 0
   \<and> length (assigned_workers (job_scheduler_tick 7 0 sched_state)) = 1
   \<and> length (job_queue (job_scheduler_tick 7 0 sched_state)) = 2
   \<and> length (available_workers (job_scheduler_tick 7 0 sched_state)) = 1
   \<and> length (assigned_workers (job_scheduler_tick 7 0 sched_state))
       \<noteq> min (length (job_queue sched_state)) (length (available_workers sched_state))"
  by (simp add: job_scheduler_tick_def sched_state_def Let_def py_sort_reverse_def
      available_workers_def assigned_workers_def is_available_def example_worker_def
      example_job_def choice_def init_simulator_def)

theorem scheduler_tick_dispatches_one_witness:
  "distinct (map fst (workers sched_state))
   \<and> set (job_queue sched_state) \<subseteq> {..<length (heap sched_state)}
   \<and> job_queue sched_state \<noteq> [] \<and> available_workers sched_state \<noteq> []
   \<and> job_queue (job_scheduler_tick 7 1 sched_state) = [2, 0]
   \<and> status (heap (job_scheduler_tick 7 1 sched_state) ! 1) = RUNNING
   \<and> started_at (heap (job_scheduler_tick 7 1 sched_state) ! 1) = Some 7
   \<and> worker_id (heap (job_scheduler_tick 7 1 sched_state) ! 1) = Some ''w2''
   \<and> length (assigned_workers (job_scheduler_tick 7 1 sched_state)) = 1"
proof -
  have a: "distinct (map fst (workers sched_state))" by (simp add: sched_state_def)
  have b: "set (job_queue sched_state) \<subseteq> {..<length (heap sched_state)}"
    by (simp add: sched_state_def)
  have c: "job_queue sched_state \<noteq> []" "available_workers sched_state \<noteq> []"
    "choice (available_workers sched_state) 1 = (''w2'', example_worker ''w2'' ''online'' None)"
    "length (assigned_workers sched_state) = 0"
    "py_sort_reverse (\<lambda>j. priority_value (priority (heap sched_state ! j))) (job_queue sched_state)
       = [1, 2, 0]"
    by (simp_all add: sched_state_def available_workers_def assigned_workers_def is_available_def
        example_worker_def choice_def py_sort_reverse_def example_job_def)
  from scheduler_tick_dispatches_one[OF a b refl, of 7 1] a b c
  show ?thesis
    by (auto simp: example_worker_def)
qed

section \<open>Retry exhaustion and recovery\<close>

lemma busy_state_exhausted:
  "simulate_worker_failure ''w1'' (busy_state 3) = Inr exhausted_state"
  by (simp add: simulate_worker_failure_def busy_state_def exhausted_state_def Let_def
      example_worker_def example_job_def init_simulator_def)

text \<open>
  C2 fails as stated: the handler increments \<open>retry_count\<close> before it compares it with
  \<open>max_retries\<close>. A worker failing while it holds a job with \<open>retry_count = max_retries = 3\<close>
  leaves the job FAILED with \<open>retry_count = 4\<close>.
\<close>

theorem worker_failure_exceeds_max_retries_counterexample:
  "retry_count (heap (busy_state 3) ! 0) = max_retries (heap (busy_state 3) ! 0)
   \<and> simulate_worker_failure ''w1'' (busy_state 3) = Inr exhausted_state
   \<and> status (heap exhausted_state ! 0) = FAILED
   \<and> retry_count (heap exhausted_state ! 0) = 4
   \<and> max_retries (heap exhausted_state ! 0) = 3
   \<and> \<not> retry_count (heap exhausted_state ! 0) \<le> max_retries (heap exhausted_state ! 0)"
  by (simp add: busy_state_exhausted)
    (simp add: busy_state_def exhausted_state_def example_job_def)

text \<open>
  C3, at the input where the code departs from it. A busy worker holding a running job
  with \<open>retry_count = max_retries\<close> fails: the retry-exhaustion path marks the job FAILED
  and clears the worker's reference, but leaves \<open>completed_at\<close> unset (the executor sets
  it on both of its paths, see \<open>run_job_sets_completed_at\<close>).
\<close>

theorem worker_failure_exhaustion_no_completed_at:
  "current_job (example_worker ''w1'' ''busy'' (Some 0)) = Some 0
   \<and> status (heap (busy_state 3) ! 0) = RUNNING
   \<and> retry_count (heap (busy_state 3) ! 0) = max_retries (heap (busy_state 3) ! 0)
   \<and> simulate_worker_failure ''w1'' (busy_state 3) = Inr exhausted_state
   \<and> status (heap exhausted_state ! 0) = FAILED
   \<and> completed_at (heap exhausted_state ! 0) = None
   \<and> assigned_workers exhausted_state = []"
  by (simp add: busy_state_exhausted)
    (simp add: busy_state_def exhausted_state_def example_job_def example_worker_def
      assigned_workers_def)

lemma run_job_sets_completed_at:
  assumes "j < length (heap s)"
  shows "completed_at (heap (run_job body now k worker j s) ! j) = Some now
       \<and> status (heap (run_job body now k worker j s) ! j) \<in> {COMPLETED, FAILED}
       \<and> map_option current_job (map_of (workers (run_job body now k worker j s)) k) = Some None"
  using assms
  by (auto simp: run_job_def Let_def map_of_update split: sum.splits)




section \<open>The retry bound\<close>

lemma distinct_mset_subset:
  assumes "mset xs \<subseteq># mset ys" and "distinct ys"
  shows "distinct xs"
proof -
  have "count (mset xs) a \<le> 1" for a
  proof -
    have "count (mset xs) a \<le> count (mset ys) a"
      by (rule mset_subset_eq_count[OF assms(1)])
    also have "\<dots> \<le> 1" using assms(2) by (simp add: distinct_count_atmost_1)
    finally show ?thesis .
  qed
  then have le: "\<And>a. count (mset xs) a \<le> 1" .
  show ?thesis
    unfolding distinct_count_atmost_1
  proof (intro allI)
    fix a
    show "count (mset xs) a = (if a \<in> set xs then 1 else 0)"
    proof (cases "a \<in> set xs")
      case True
      then have "0 < count (mset xs) a" by (simp add: count_greater_zero_iff)
      with le[of a] have "count (mset xs) a = 1" by linarith
      with True show ?thesis by simp
    next
      case False
      then show ?thesis by (simp add: not_in_iff[symmetric])
    qed
  qed
qed

lemma held_of_update_Some:
  "map_of al k = Some v \<Longrightarrow>
     mset (held_of (AList.update k v' al)) + mset (opt_list (current_job v))
       = mset (held_of al) + mset (opt_list (current_job v'))"
  by (induction al) (auto simp: held_of_def)

lemma held_of_update_None:
  "map_of al k = None \<Longrightarrow> held_of (AList.update k v' al) = held_of al @ opt_list (current_job v')"
  by (induction al) (auto simp: held_of_def)


lemma retry_inv_heap_same:
  assumes "retry_inv s" and "distinct (map fst (workers s'))"
    and "mset (live_jobs s') \<subseteq># mset (live_jobs s)" and "heap s' = heap s"
  shows "retry_inv s'"
proof -
  have d: "distinct (live_jobs s')"
    using assms(1,3) by (auto simp: retry_inv_def intro: distinct_mset_subset)
  have sub: "set (live_jobs s') \<subseteq> set (live_jobs s)"
    using set_mset_mono[OF assms(3)] by simp
  show ?thesis
    using assms(1,2,4) d sub unfolding retry_inv_def by auto
qed

lemma retry_inv_heap_update:
  assumes "retry_inv s" and "distinct (map fst (workers s'))"
    and "mset (live_jobs s') \<subseteq># mset (live_jobs s)"
    and "j \<in> set (live_jobs s)"
    and "heap s' = (heap s)[j := job']"
    and "max_retries job' = max_retries (heap s ! j)"
    and "retry_count job' \<le> max_retries job'
       \<or> (retry_count job' = retry_count (heap s ! j) + 1 \<and> status job' = FAILED
          \<and> j \<notin> set (live_jobs s'))"
  shows "retry_inv s'"
proof -
  have d: "distinct (live_jobs s')"
    using assms(1,3) by (auto simp: retry_inv_def intro: distinct_mset_subset)
  have sub: "set (live_jobs s') \<subseteq> set (live_jobs s)"
    using set_mset_mono[OF assms(3)] by simp
  have jl: "j < length (heap s)" using assms(1,4) by (auto simp: retry_inv_def)
  have jr: "retry_count (heap s ! j) \<le> max_retries (heap s ! j)"
    using assms(1,4) jl by (auto simp: retry_inv_def)
  have len: "length (heap s') = length (heap s)" using assms(5) by simp
  have each: "retry_count (heap s' ! i) \<le> max_retries (heap s' ! i)
       \<or> (retry_count (heap s' ! i) = max_retries (heap s' ! i) + 1
          \<and> status (heap s' ! i) = FAILED \<and> i \<notin> set (live_jobs s'))"
    if i: "i < length (heap s)" for i
  proof (cases "i = j")
    case True
    then have "heap s' ! i = job'" using assms(5) jl by simp
    with assms(6,7) jr True show ?thesis by auto
  next
    case False
    then have "heap s' ! i = heap s ! i" using assms(5) by simp
    with assms(1) i sub show ?thesis by (auto simp: retry_inv_def)
  qed
  show ?thesis
    unfolding retry_inv_def using assms(1,2) d sub len each
    by (auto simp: retry_inv_def)
qed

lemma retry_inv_init: "retry_inv (init_simulator now)"
  by (simp add: retry_inv_def init_simulator_def live_jobs_def held_jobs_def held_of_def)

lemma held_update_subset:
  assumes "current_job v' = None"
  shows "mset (held_of (AList.update k v' al)) \<subseteq># mset (held_of al)"
proof (cases "map_of al k")
  case None
  then show ?thesis using assms by (simp add: held_of_update_None opt_list_def)
next
  case (Some v)
  from held_of_update_Some[OF Some, of v'] assms
  have "mset (held_of (AList.update k v' al)) + mset (opt_list (current_job v)) = mset (held_of al)"
    by (simp add: opt_list_def)
  then have "mset (held_of al) =
      mset (held_of (AList.update k v' al)) + mset (opt_list (current_job v))" by simp
  then show ?thesis by (simp only: mset_subset_eq_add_left)
qed

lemma held_update_same:
  assumes "map_of al k = Some v" and "current_job v' = current_job v"
  shows "mset (held_of (AList.update k v' al)) = mset (held_of al)"
  using held_of_update_Some[OF assms(1), of v'] assms(2) by simp

lemma retry_inv_add_worker:
  assumes "retry_inv s"
  shows "retry_inv (add_worker wid fp now s)"
proof (rule retry_inv_heap_same[OF assms])
  show "distinct (map fst (workers (add_worker wid fp now s)))"
    using assms by (simp add: add_worker_def retry_inv_def distinct_update)
  show "mset (live_jobs (add_worker wid fp now s)) \<subseteq># mset (live_jobs s)"
    by (simp add: add_worker_def live_jobs_def held_jobs_def held_update_subset)
  show "heap (add_worker wid fp now s) = heap s" by (simp add: add_worker_def)
qed

lemma retry_inv_recover_worker:
  assumes "retry_inv s"
  shows "retry_inv (recover_worker wid now s)"
proof (cases "map_of (workers s) wid")
  case None
  then show ?thesis using assms by (simp add: recover_worker_def)
next
  case (Some w)
  show ?thesis
  proof (rule retry_inv_heap_same[OF assms])
    show "distinct (map fst (workers (recover_worker wid now s)))"
      using assms Some by (simp add: recover_worker_def retry_inv_def distinct_update)
    show "mset (live_jobs (recover_worker wid now s)) \<subseteq># mset (live_jobs s)"
      using Some by (simp add: recover_worker_def live_jobs_def held_jobs_def held_update_same)
    show "heap (recover_worker wid now s) = heap s"
      using Some by (simp add: recover_worker_def)
  qed
qed

lemma retry_inv_emit:
  assumes "retry_inv s"
  shows "retry_inv (job_generator_emit jtype prio params now r1 r2 r3 s)"
proof -
  let ?s' = "job_generator_emit jtype prio params now r1 r2 r3 s"
  let ?n = "length (heap s)"
  have l: "live_jobs ?s' = job_queue s @ [?n] @ held_jobs s"
    by (simp add: job_generator_emit_def Let_def live_jobs_def held_jobs_def)
  have h: "heap ?s' = heap s @ [create_job jtype prio params now r1 r2 r3]"
    by (simp add: job_generator_emit_def Let_def)
  have w: "workers ?s' = workers s" by (simp add: job_generator_emit_def Let_def)
  have fresh: "?n \<notin> set (live_jobs s)" using assms by (auto simp: retry_inv_def)
  have sl: "set (live_jobs ?s') = insert ?n (set (live_jobs s))"
    unfolding l by (auto simp: live_jobs_def)
  have d: "distinct (live_jobs ?s')"
    using assms fresh unfolding l by (auto simp: retry_inv_def live_jobs_def)
  have each: "retry_count (heap ?s' ! i) \<le> max_retries (heap ?s' ! i)
       \<or> (retry_count (heap ?s' ! i) = max_retries (heap ?s' ! i) + 1
          \<and> status (heap ?s' ! i) = FAILED \<and> i \<notin> set (live_jobs ?s'))"
    if i: "i < length (heap ?s')" for i
  proof (cases "i < ?n")
    case True
    then have "heap ?s' ! i = heap s ! i" unfolding h by (simp add: nth_append)
    with assms True sl show ?thesis by (auto simp: retry_inv_def)
  next
    case False
    with i have "i = ?n" unfolding h by simp
    then have "heap ?s' ! i = create_job jtype prio params now r1 r2 r3" unfolding h by simp
    then show ?thesis by (simp add: create_job_def)
  qed
  show ?thesis
    unfolding retry_inv_def using assms d sl each w
    by (auto simp: retry_inv_def h)
qed


lemma mset_eq_subset: "(A :: 'a multiset) = B \<Longrightarrow> A \<subseteq># B"
  by simp

lemma retry_inv_scheduler:
  assumes "retry_inv s"
  shows "retry_inv (job_scheduler_tick now r s)"
proof (cases "job_queue s = []")
  case True
  then show ?thesis using assms by (simp add: job_scheduler_tick_def)
next
  case False
  let ?key = "\<lambda>j. priority_value (priority (heap s ! j))"
  show ?thesis
  proof (cases "available_workers s = []")
    case True
    with False have t: "job_scheduler_tick now r s = s\<lparr>job_queue := py_sort_reverse ?key (job_queue s)\<rparr>"
      by (simp add: job_scheduler_tick_def Let_def available_workers_def)
    show ?thesis
      unfolding t
    proof (rule retry_inv_heap_same[OF assms])
      show "distinct (map fst (workers (s\<lparr>job_queue := py_sort_reverse ?key (job_queue s)\<rparr>)))"
        using assms by (simp add: retry_inv_def)
      show "mset (live_jobs (s\<lparr>job_queue := py_sort_reverse ?key (job_queue s)\<rparr>))
              \<subseteq># mset (live_jobs s)"
        by (simp add: live_jobs_def held_jobs_def mset_py_sort_reverse)
      show "heap (s\<lparr>job_queue := py_sort_reverse ?key (job_queue s)\<rparr>) = heap s" by simp
    qed
  next
    case av: False
    from False av obtain job rest k worker where
      q: "py_sort_reverse ?key (job_queue s) = job # rest"
      and m: "(k, worker) \<in> set (workers s)" "is_available worker"
      and t: "job_scheduler_tick now r s =
         s\<lparr> job_queue := rest,
            workers := AList.update k (worker\<lparr>current_job := Some job, w_status := ''busy''\<rparr>) (workers s),
            heap := (heap s)[job := (heap s ! job)\<lparr> status := RUNNING, started_at := Some now,
                                                   worker_id := Some (w_worker_id worker) \<rparr>] \<rparr>"
      by (rule job_scheduler_tick_dispatch[where r = r and now = now])
    let ?s' = "job_scheduler_tick now r s"
    have dk: "distinct (map fst (workers s))" using assms by (simp add: retry_inv_def)
    with m(1) have mo: "map_of (workers s) k = Some worker" by simp
    have mq: "mset (job_queue s) = mset rest + {#job#}"
      using mset_py_sort_reverse[of ?key "job_queue s"] q by simp
    have mh: "mset (held_of (AList.update k (worker\<lparr>current_job := Some job, w_status := ''busy''\<rparr>)
                 (workers s))) = mset (held_of (workers s)) + {#job#}"
      using held_of_update_Some[OF mo, of "worker\<lparr>current_job := Some job, w_status := ''busy''\<rparr>"]
        m(2) by (simp add: is_available_def opt_list_def)
    have ml: "mset (live_jobs ?s') = mset (live_jobs s)"
      unfolding t by (simp add: live_jobs_def held_jobs_def mh mq)
    have "job \<in># mset (job_queue s)" unfolding mq by simp
    then have jin: "job \<in> set (live_jobs s)" by (simp add: live_jobs_def)
    then have jl: "job < length (heap s)"
      and jr: "retry_count (heap s ! job) \<le> max_retries (heap s ! job)"
      using assms by (auto simp: retry_inv_def)
    show ?thesis
    proof (rule retry_inv_heap_update[OF assms _ _ jin])
      show "distinct (map fst (workers ?s'))" unfolding t using dk by (simp add: distinct_update)
      show "mset (live_jobs ?s') \<subseteq># mset (live_jobs s)" using ml by simp
      show "heap ?s' = (heap s)[job := (heap s ! job)\<lparr> status := RUNNING, started_at := Some now,
                                                   worker_id := Some (w_worker_id worker) \<rparr>]"
        unfolding t by simp
      show "max_retries ((heap s ! job)\<lparr> status := RUNNING, started_at := Some now,
               worker_id := Some (w_worker_id worker) \<rparr>) = max_retries (heap s ! job)" by simp
      show "retry_count ((heap s ! job)\<lparr> status := RUNNING, started_at := Some now,
               worker_id := Some (w_worker_id worker) \<rparr>)
             \<le> max_retries ((heap s ! job)\<lparr> status := RUNNING, started_at := Some now,
               worker_id := Some (w_worker_id worker) \<rparr>)
          \<or> (retry_count ((heap s ! job)\<lparr> status := RUNNING, started_at := Some now,
               worker_id := Some (w_worker_id worker) \<rparr>) = retry_count (heap s ! job) + 1
             \<and> status ((heap s ! job)\<lparr> status := RUNNING, started_at := Some now,
               worker_id := Some (w_worker_id worker) \<rparr>) = FAILED
             \<and> job \<notin> set (live_jobs ?s'))"
        using jr by simp
    qed
  qed
qed

lemma held_release:
  assumes "map_of al k = Some worker" and "current_job worker = Some j"
    and "current_job w' = None"
  shows "mset (held_of (AList.update k w' al)) + {#j#} = mset (held_of al)"
  using held_of_update_Some[OF assms(1), of w'] assms(2,3) by (simp add: opt_list_def)

lemma retry_inv_run_job:
  assumes "retry_inv s" and "map_of (workers s) k = Some worker"
    and "current_job worker = Some j"
  shows "retry_inv (run_job body now k worker j s)"
proof -
  let ?s' = "run_job body now k worker j s"
  let ?w' = "worker\<lparr>current_job := None, w_status := ''online''\<rparr>"
  have rel: "mset (held_of (AList.update k ?w' (workers s))) + {#j#} = mset (held_of (workers s))"
    by (rule held_release[OF assms(2,3)]) simp
  have ws: "workers ?s' = AList.update k ?w' (workers s)"
    and jq: "job_queue ?s' = job_queue s"
    by (simp_all add: run_job_def Let_def split: sum.splits)
  have "j \<in># mset (held_of (workers s))" unfolding rel[symmetric] by simp
  then have jin: "j \<in> set (live_jobs s)" by (simp add: live_jobs_def held_jobs_def)
  then have jr: "retry_count (heap s ! j) \<le> max_retries (heap s ! j)"
    using assms(1) by (auto simp: retry_inv_def)
  obtain job' where hp: "heap ?s' = (heap s)[j := job']"
    and mr: "max_retries job' = max_retries (heap s ! j)"
    and rc: "retry_count job' = retry_count (heap s ! j)"
    by (cases "execute_job body job_executor_registry (heap s ! j)")
      (simp_all add: run_job_def Let_def)
  show ?thesis
  proof (rule retry_inv_heap_update[OF assms(1) _ _ jin hp mr])
    show "distinct (map fst (workers ?s'))"
      unfolding ws using assms(1) by (simp add: retry_inv_def distinct_update)
    have "mset (live_jobs ?s') + {#j#} = mset (live_jobs s)"
      unfolding live_jobs_def held_jobs_def ws jq using rel by simp
    then have "mset (live_jobs s) = mset (live_jobs ?s') + {#j#}" by simp
    then show "mset (live_jobs ?s') \<subseteq># mset (live_jobs s)"
      by (simp only: mset_subset_eq_add_left)
    show "retry_count job' \<le> max_retries job'
       \<or> (retry_count job' = retry_count (heap s ! j) + 1 \<and> status job' = FAILED
          \<and> j \<notin> set (live_jobs ?s'))"
      using jr rc mr by simp
  qed
qed

lemma retry_inv_executor_loop:
  assumes "retry_inv s"
  shows "retry_inv (job_executor_loop body now ks s)"
  using assms
proof (induction ks arbitrary: s)
  case Nil
  then show ?case by simp
next
  case (Cons k ks)
  show ?case
  proof (cases "map_of (workers s) k")
    case None
    then show ?thesis using Cons by simp
  next
    case (Some worker)
    show ?thesis
    proof (cases "current_job worker")
      case None
      then show ?thesis using Some Cons by simp
    next
      case j: (Some j)
      show ?thesis
      proof (cases "status (heap s ! j) = RUNNING")
        case True
        have "retry_inv (run_job (body k) (now k) k worker j s)"
          by (rule retry_inv_run_job[OF Cons.prems Some j])
        then have "retry_inv (job_executor_loop body now ks (run_job (body k) (now k) k worker j s))"
          by (rule Cons.IH)
        then show ?thesis using Some j True by simp
      next
        case False
        then show ?thesis using Some j Cons by simp
      qed
    qed
  qed
qed

lemma retry_inv_executor:
  "retry_inv s \<Longrightarrow> retry_inv (job_executor_tick body now s)"
  by (simp add: job_executor_tick_def retry_inv_executor_loop)


lemma retry_inv_failure:
  assumes "retry_inv s" and "simulate_worker_failure wid s = Inr s'"
  shows "retry_inv s'"
proof (cases "map_of (workers s) wid")
  case None
  then show ?thesis using assms(2) by (simp add: simulate_worker_failure_def)
next
  case (Some worker)
  let ?w1 = "worker\<lparr>w_status := ''failed''\<rparr>"
  have dk: "distinct (map fst (workers s))" using assms(1) by (simp add: retry_inv_def)
  show ?thesis
  proof (cases "current_job worker")
    case None
    with Some assms(2) have s': "workers s' = AList.update wid ?w1 (workers s)"
      "heap s' = heap s" "job_queue s' = job_queue s"
      by (auto simp: simulate_worker_failure_def Let_def)
    show ?thesis
    proof (rule retry_inv_heap_same[OF assms(1)])
      show "distinct (map fst (workers s'))" unfolding s' using dk by (simp add: distinct_update)
      have "mset (held_of (AList.update wid ?w1 (workers s))) = mset (held_of (workers s))"
        by (rule held_update_same[OF Some]) simp
      then show "mset (live_jobs s') \<subseteq># mset (live_jobs s)"
        by (simp add: live_jobs_def held_jobs_def s')
      show "heap s' = heap s" by (rule s')
    qed
  next
    case j: (Some j)
    let ?w2 = "?w1\<lparr>current_job := None\<rparr>"
    let ?job1 = "(heap s ! j)\<lparr> status := PENDING, worker_id := None, started_at := None,
                    retry_count := retry_count (heap s ! j) + 1 \<rparr>"
    have rel: "mset (held_of (AList.update wid ?w2 (workers s))) + {#j#} = mset (held_of (workers s))"
      by (rule held_release[OF Some j]) simp
    have "j \<in># mset (held_of (workers s))" unfolding rel[symmetric] by simp
    then have jin: "j \<in> set (live_jobs s)" by (simp add: live_jobs_def held_jobs_def)
    show ?thesis
    proof (cases "retry_count (heap s ! j) + 1 \<le> max_retries (heap s ! j)")
      case True
      with Some j assms(2) have s': "workers s' = AList.update wid ?w2 (workers s)"
        "heap s' = (heap s)[j := ?job1]" "job_queue s' = job_queue s @ [j]"
        by (auto simp: simulate_worker_failure_def Let_def)
      show ?thesis
      proof (rule retry_inv_heap_update[OF assms(1) _ _ jin s'(2)])
        show "distinct (map fst (workers s'))"
          unfolding s' using dk by (simp add: distinct_update)
        have "mset (live_jobs s') = mset (live_jobs s)"
          unfolding live_jobs_def held_jobs_def s' using rel by simp
        then show "mset (live_jobs s') \<subseteq># mset (live_jobs s)" by simp
        show "max_retries ?job1 = max_retries (heap s ! j)" by simp
        show "retry_count ?job1 \<le> max_retries ?job1
           \<or> (retry_count ?job1 = retry_count (heap s ! j) + 1 \<and> status ?job1 = FAILED
              \<and> j \<notin> set (live_jobs s'))"
          using True by simp
      qed
    next
      case False
      let ?job2 = "?job1\<lparr> status := FAILED,
          error_message := Some ''Max retries exceeded due to worker failures'' \<rparr>"
      from False Some j assms(2) have s': "workers s' = AList.update wid ?w2 (workers s)"
        "heap s' = (heap s)[j := ?job2]" "job_queue s' = job_queue s"
        by (auto simp: simulate_worker_failure_def Let_def)
      have ml: "mset (live_jobs s') + {#j#} = mset (live_jobs s)"
        unfolding live_jobs_def held_jobs_def s' using rel by simp
      have dl: "distinct (live_jobs s)" using assms(1) by (simp add: retry_inv_def)
      have notin: "j \<notin> set (live_jobs s')"
      proof
        assume "j \<in> set (live_jobs s')"
        then have "0 < count (mset (live_jobs s')) j" by (simp add: count_greater_zero_iff)
        then have "2 \<le> count (mset (live_jobs s') + {#j#}) j" by simp
        then have "2 \<le> count (mset (live_jobs s)) j" unfolding ml .
        moreover have "count (mset (live_jobs s)) j \<le> 1"
          using dl by (simp add: distinct_count_atmost_1)
        ultimately show False by simp
      qed
      show ?thesis
      proof (rule retry_inv_heap_update[OF assms(1) _ _ jin s'(2)])
        show "distinct (map fst (workers s'))"
          unfolding s' using dk by (simp add: distinct_update)
        from ml have "mset (live_jobs s) = mset (live_jobs s') + {#j#}" by simp
        then show "mset (live_jobs s') \<subseteq># mset (live_jobs s)"
          by (simp only: mset_subset_eq_add_left)
        show "max_retries ?job2 = max_retries (heap s ! j)" by simp
        show "retry_count ?job2 \<le> max_retries ?job2
           \<or> (retry_count ?job2 = retry_count (heap s ! j) + 1 \<and> status ?job2 = FAILED
              \<and> j \<notin> set (live_jobs s'))"
          using notin by simp
      qed
    qed
  qed
qed

lemma retry_inv_fault_injector_loop:
  assumes "retry_inv s"
  shows "retry_inv (fault_injector_loop fails ks s)"
  using assms
proof (induction ks arbitrary: s)
  case Nil
  then show ?case by simp
next
  case (Cons k ks)
  show ?case
  proof (cases "map_of (workers s) k")
    case None
    then show ?thesis using Cons by simp
  next
    case (Some worker)
    show ?thesis
    proof (cases "w_status worker = ''online'' \<and> fails k")
      case False
      then show ?thesis using Some Cons by auto
    next
      case True
      show ?thesis
      proof (cases "simulate_worker_failure k s")
        case (Inl e)
        then show ?thesis using Some True Cons.prems by simp
      next
        case (Inr s1)
        have "retry_inv s1" by (rule retry_inv_failure[OF Cons.prems Inr])
        then have "retry_inv (fault_injector_loop fails ks s1)" by (rule Cons.IH)
        then show ?thesis using Some True Inr by simp
      qed
    qed
  qed
qed

lemma retry_inv_heartbeat:
  assumes "retry_inv s" and "map_of (workers s) k = Some worker"
  shows "retry_inv (s\<lparr>workers :=
            AList.update k (worker\<lparr>last_heartbeat := t\<rparr>) (workers s)\<rparr>)"
proof (rule retry_inv_heap_same[OF assms(1)])
  show "distinct (map fst (workers (s\<lparr>workers :=
            AList.update k (worker\<lparr>last_heartbeat := t\<rparr>) (workers s)\<rparr>)))"
    using assms(1) by (simp add: retry_inv_def distinct_update)
  have "mset (held_of (AList.update k (worker\<lparr>last_heartbeat := t\<rparr>) (workers s)))
      = mset (held_of (workers s))"
    by (rule held_update_same[OF assms(2)]) simp
  then show "mset (live_jobs (s\<lparr>workers :=
            AList.update k (worker\<lparr>last_heartbeat := t\<rparr>) (workers s)\<rparr>)) \<subseteq># mset (live_jobs s)"
    by (simp add: live_jobs_def held_jobs_def)
  show "heap (s\<lparr>workers :=
            AList.update k (worker\<lparr>last_heartbeat := t\<rparr>) (workers s)\<rparr>) = heap s" by simp
qed

lemma retry_inv_worker_monitor_loop:
  assumes "retry_inv s"
  shows "retry_inv (worker_monitor_loop fails t ks s)"
  using assms
proof (induction ks arbitrary: s)
  case Nil
  then show ?case by simp
next
  case (Cons k ks)
  show ?case
  proof (cases "map_of (workers s) k")
    case None
    then show ?thesis using Cons by simp
  next
    case (Some worker)
    show ?thesis
    proof (cases "w_status worker = ''online''")
      case False
      then show ?thesis using Some Cons by simp
    next
      case True
      show ?thesis
      proof (cases "fails k")
        case False
        have "retry_inv (s\<lparr>workers :=
            AList.update k (worker\<lparr>last_heartbeat := t\<rparr>) (workers s)\<rparr>)"
          by (rule retry_inv_heartbeat[OF Cons.prems Some])
        then have "retry_inv (worker_monitor_loop fails t ks (s\<lparr>workers :=
            AList.update k (worker\<lparr>last_heartbeat := t\<rparr>) (workers s)\<rparr>))"
          by (rule Cons.IH)
        then show ?thesis using Some True False by simp
      next
        case f: True
        show ?thesis
        proof (cases "simulate_worker_failure k s")
          case (Inl e)
          then show ?thesis using Some True f Cons.prems by simp
        next
          case (Inr s1)
          have "retry_inv s1" by (rule retry_inv_failure[OF Cons.prems Inr])
          then have "retry_inv (worker_monitor_loop fails t ks s1)" by (rule Cons.IH)
          then show ?thesis using Some True f Inr by simp
        qed
      qed
    qed
  qed
qed

lemma retry_inv_update_job_rate:
  assumes "retry_inv s"
  shows "retry_inv (snd (update_job_rate str_float body s))"
proof -
  have "snd (update_job_rate str_float body s) = s
      \<or> (\<exists>x. snd (update_job_rate str_float body s) = s\<lparr>job_generation_rate := x\<rparr>)"
    by (auto simp: update_job_rate_def Let_def set_job_generation_rate_def
        split: sum.splits pyval.splits)
  then show ?thesis
    using assms by (auto simp: retry_inv_def live_jobs_def held_jobs_def)
qed

lemma reachable_retry_inv: "reachable s \<Longrightarrow> retry_inv s"
proof (induction rule: reachable.induct)
  case (r_init now)
  show ?case by (rule retry_inv_init)
next
  case (r_running s b)
  then show ?case by (simp add: retry_inv_def live_jobs_def held_jobs_def)
next
  case (r_add_worker s wid fp now)
  then show ?case by (simp add: retry_inv_add_worker)
next
  case (r_emit s jtype prio params now r1 r2 r3)
  then show ?case by (simp add: retry_inv_emit)
next
  case (r_schedule s now r)
  then show ?case by (simp add: retry_inv_scheduler)
next
  case (r_execute s body nows)
  then show ?case by (simp add: retry_inv_executor)
next
  case (r_fault s fails)
  then show ?case by (simp add: fault_injector_tick_def retry_inv_fault_injector_loop)
next
  case (r_monitor s fails now)
  then show ?case by (simp add: worker_monitor_tick_def retry_inv_worker_monitor_loop)
next
  case (r_failure s wid s')
  then show ?case by (blast intro: retry_inv_failure)
next
  case (r_recover s wid now)
  then show ?case by (simp add: retry_inv_recover_worker)
next
  case (r_rate s str_float body)
  then show ?case by (simp add: retry_inv_update_job_rate)
qed


text \<open>
  C2, amended. In every reachable state each job has \<open>retry_count \<le> max_retries + 1\<close>;
  a job that is queued or held by a worker has \<open>retry_count \<le> max_retries\<close>, and a job
  whose \<open>retry_count\<close> exceeds \<open>max_retries\<close> is FAILED. After a worker failure while
  holding a job whose \<open>retry_count\<close> equals \<open>max_retries\<close>, the job is FAILED with
  \<open>retry_count = max_retries + 1\<close>: the handler increments the count before it compares.
\<close>

theorem retry_count_bound:
  "(reachable s \<longrightarrow>
      (\<forall>i < length (heap s).
          retry_count (heap s ! i) \<le> max_retries (heap s ! i) + 1
        \<and> (i \<in> set (job_queue s) \<union> set (held_jobs s) \<longrightarrow>
             retry_count (heap s ! i) \<le> max_retries (heap s ! i))
        \<and> (max_retries (heap s ! i) < retry_count (heap s ! i) \<longrightarrow>
             status (heap s ! i) = FAILED)))
   \<and> (map_of (workers s) wid = Some worker \<and> current_job worker = Some j
        \<and> j < length (heap s) \<and> retry_count (heap s ! j) = max_retries (heap s ! j) \<longrightarrow>
        (\<exists>s'. simulate_worker_failure wid s = Inr s'
            \<and> status (heap s' ! j) = FAILED
            \<and> max_retries (heap s' ! j) = max_retries (heap s ! j)
            \<and> retry_count (heap s' ! j) = max_retries (heap s ! j) + 1))"
proof -
  have a: "reachable s \<longrightarrow>
      (\<forall>i < length (heap s).
          retry_count (heap s ! i) \<le> max_retries (heap s ! i) + 1
        \<and> (i \<in> set (job_queue s) \<union> set (held_jobs s) \<longrightarrow>
             retry_count (heap s ! i) \<le> max_retries (heap s ! i))
        \<and> (max_retries (heap s ! i) < retry_count (heap s ! i) \<longrightarrow>
             status (heap s ! i) = FAILED))"
  proof
    assume "reachable s"
    then have inv: "retry_inv s" by (rule reachable_retry_inv)
    show "\<forall>i < length (heap s).
          retry_count (heap s ! i) \<le> max_retries (heap s ! i) + 1
        \<and> (i \<in> set (job_queue s) \<union> set (held_jobs s) \<longrightarrow>
             retry_count (heap s ! i) \<le> max_retries (heap s ! i))
        \<and> (max_retries (heap s ! i) < retry_count (heap s ! i) \<longrightarrow>
             status (heap s ! i) = FAILED)"
    proof (intro allI impI)
      fix i assume "i < length (heap s)"
      with inv have "retry_count (heap s ! i) \<le> max_retries (heap s ! i)
       \<or> (retry_count (heap s ! i) = max_retries (heap s ! i) + 1
          \<and> status (heap s ! i) = FAILED \<and> i \<notin> set (live_jobs s))"
        by (simp add: retry_inv_def)
      then show "retry_count (heap s ! i) \<le> max_retries (heap s ! i) + 1
        \<and> (i \<in> set (job_queue s) \<union> set (held_jobs s) \<longrightarrow>
             retry_count (heap s ! i) \<le> max_retries (heap s ! i))
        \<and> (max_retries (heap s ! i) < retry_count (heap s ! i) \<longrightarrow>
             status (heap s ! i) = FAILED)"
        by (auto simp: live_jobs_def)
    qed
  qed
  have b: "map_of (workers s) wid = Some worker \<and> current_job worker = Some j
        \<and> j < length (heap s) \<and> retry_count (heap s ! j) = max_retries (heap s ! j) \<longrightarrow>
        (\<exists>s'. simulate_worker_failure wid s = Inr s'
            \<and> status (heap s' ! j) = FAILED
            \<and> max_retries (heap s' ! j) = max_retries (heap s ! j)
            \<and> retry_count (heap s' ! j) = max_retries (heap s ! j) + 1)"
    by (auto simp: simulate_worker_failure_def Let_def)
  from a b show ?thesis by (rule conjI)
qed

theorem retry_count_bound_witness:
  "reachable one_job_state
   \<and> 0 < length (heap one_job_state)
   \<and> 0 \<in> set (job_queue one_job_state) \<union> set (held_jobs one_job_state)
   \<and> retry_count (heap one_job_state ! 0) \<le> max_retries (heap one_job_state ! 0)
   \<and> map_of (workers (busy_state 3)) ''w1'' = Some (example_worker ''w1'' ''busy'' (Some 0))
   \<and> retry_count (heap (busy_state 3) ! 0) = max_retries (heap (busy_state 3) ! 0)
   \<and> (\<exists>s'. simulate_worker_failure ''w1'' (busy_state 3) = Inr s'
         \<and> status (heap s' ! 0) = FAILED \<and> retry_count (heap s' ! 0) = 4)"
proof -
  have r: "reachable one_job_state"
    unfolding one_job_state_def
    by (intro reachable.r_schedule reachable.r_emit reachable.r_add_worker reachable.r_init)
  have q: "job_queue one_job_state = []" "held_jobs one_job_state = [0]"
    "length (heap one_job_state) = 1"
    by (simp_all add: one_job_state_def job_scheduler_tick_def job_generator_emit_def
        add_worker_def init_simulator_def Let_def py_sort_reverse_def available_workers_def
        is_available_def choice_def held_jobs_def held_of_def opt_list_def)
  have b: "map_of (workers (busy_state 3)) ''w1'' = Some (example_worker ''w1'' ''busy'' (Some 0))"
    "current_job (example_worker ''w1'' ''busy'' (Some 0)) = Some 0"
    "0 < length (heap (busy_state 3))"
    "retry_count (heap (busy_state 3) ! 0) = max_retries (heap (busy_state 3) ! 0)"
    "max_retries (heap (busy_state 3) ! 0) = 3"
    by (simp_all add: busy_state_def example_worker_def example_job_def)
  from retry_count_bound[where s = one_job_state]
    retry_count_bound[where s = "busy_state 3" and wid = "''w1''"
      and worker = "example_worker ''w1'' ''busy'' (Some 0)" and j = 0] r q b
  show ?thesis by auto
qed

end
